theory Spec2Isabelle
  imports Main "HOL-Library.Sublist"
begin

section \<open>Python values and string primitives\<close>

text \<open>
  Python strings are sequences of code points. The embedding uses \<^typ>\<open>string\<close>, whose
  characters are the code points 0 to 255, so \<^const>\<open>length\<close> is Python's \<open>len\<close> on
  that range. The character classes below are the ones CPython 3 assigns to these code
  points.
\<close>

datatype py_error =
    ValueError | TypeError | AttributeError | KeyError | OverflowError | StoreError

text \<open>
  A parsed JSON document, as \<open>request.get_json()\<close> hands it to a handler. Numbers with a
  fraction are not represented. An object is kept as its list of items; keys are looked
  up with \<^const>\<open>map_of\<close>.
\<close>

datatype json =
    JNull
  | JBool bool
  | JNum int
  | JStr string
  | JArr "json list"
  | JObj "(string \<times> json) list"

text \<open>Truth value of a Python object (\<open>if x\<close>, \<open>not x\<close>).\<close>

fun truthy :: "json \<Rightarrow> bool" where
  "truthy JNull = False"
| "truthy (JBool b) = b"
| "truthy (JNum n) = (n \<noteq> 0)"
| "truthy (JStr s) = (s \<noteq> [])"
| "truthy (JArr xs) = (xs \<noteq> [])"
| "truthy (JObj kvs) = (kvs \<noteq> [])"

text \<open>\<open>len(x)\<close>: defined on strings, lists and dicts, a TypeError elsewhere.\<close>

fun py_len :: "json \<Rightarrow> py_error + nat" where
  "py_len (JStr s) = Inr (length s)"
| "py_len (JArr xs) = Inr (length xs)"
| "py_len (JObj kvs) = Inr (length kvs)"
| "py_len JNull = Inl TypeError"
| "py_len (JBool b) = Inl TypeError"
| "py_len (JNum n) = Inl TypeError"

text \<open>\<open>str.isspace\<close> on one character; \<open>str.strip()\<close> removes these from both ends.\<close>

definition isspace :: "char \<Rightarrow> bool" where
  "isspace c = ((of_char c :: nat) \<in> set [9, 10, 11, 12, 13, 28, 29, 30, 31, 32, 133, 160])"

definition py_strip :: "string \<Rightarrow> string" where
  "py_strip s = rev (dropWhile isspace (rev (dropWhile isspace s)))"

text \<open>\<open>s.split(sep)\<close> for a one-character separator: one more part than separators.\<close>

fun py_split :: "char \<Rightarrow> string \<Rightarrow> string list" where
  "py_split sep [] = [[]]"
| "py_split sep (c # cs) =
     (if c = sep then [] # py_split sep cs
      else (c # hd (py_split sep cs)) # tl (py_split sep cs))"

text \<open>\<open>sep.join(parts)\<close>.\<close>

fun py_join :: "string \<Rightarrow> string list \<Rightarrow> string" where
  "py_join sep [] = []"
| "py_join sep [p] = p"
| "py_join sep (p # q # ps) = p @ sep @ py_join sep (q # ps)"

text \<open>\<open>s.replace(c, '')\<close> for a one-character \<open>c\<close>.\<close>

definition py_remove :: "char \<Rightarrow> string \<Rightarrow> string" where
  "py_remove c s = filter (\<lambda>x. x \<noteq> c) s"

text \<open>\<open>str.isalnum\<close>: at least one character, and every character alphanumeric.\<close>

definition isalnum_char :: "char \<Rightarrow> bool" where
  "isalnum_char c =
     (let n = (of_char c :: nat) in
      (48 \<le> n \<and> n \<le> 57) \<or> (65 \<le> n \<and> n \<le> 90) \<or> (97 \<le> n \<and> n \<le> 122)
      \<or> n \<in> set [170, 178, 179, 181, 185, 186, 188, 189, 190]
      \<or> (192 \<le> n \<and> n \<le> 214) \<or> (216 \<le> n \<and> n \<le> 246) \<or> (248 \<le> n \<and> n \<le> 255))"

definition py_isalnum :: "string \<Rightarrow> bool" where
  "py_isalnum s = (s \<noteq> [] \<and> list_all isalnum_char s)"

subsection \<open>\<open>int(s)\<close> on a string\<close>

text \<open>
  \<open>int(s)\<close> in base 10: surrounding whitespace is dropped, one sign is allowed, then
  decimal digits with single underscores between digits. Anything else is a ValueError,
  here \<^const>\<open>None\<close>. The white space \<open>int\<close> drops is narrower than that of
  \<open>strip\<close>: the separators 28 to 31 are not dropped. A string with more decimal
  digits than the interpreter's limit (4300 unless the process changes it, which this
  program does not) is a ValueError as well; the sign, the underscores and the white
  space do not count.
\<close>

definition max_str_digits :: nat where
  "max_str_digits = 4300"

definition int_space :: "char \<Rightarrow> bool" where
  "int_space c = ((of_char c :: nat) \<in> set [9, 10, 11, 12, 13, 32, 133, 160])"

definition is_digit :: "char \<Rightarrow> bool" where
  "is_digit c = (48 \<le> (of_char c :: nat) \<and> (of_char c :: nat) \<le> 57)"

definition digit_val :: "char \<Rightarrow> nat" where
  "digit_val c = of_char c - 48"

fun parse_digits :: "nat \<Rightarrow> string \<Rightarrow> nat option" where
  "parse_digits acc [] = Some acc"
| "parse_digits acc [c] = (if is_digit c then Some (acc * 10 + digit_val c) else None)"
| "parse_digits acc (c # d # ds) =
     (if is_digit c then parse_digits (acc * 10 + digit_val c) (d # ds)
      else if c = CHR ''_'' \<and> is_digit d then parse_digits (acc * 10 + digit_val d) ds
      else None)"

definition parse_unsigned :: "string \<Rightarrow> nat option" where
  "parse_unsigned s =
     (if length (filter is_digit s) > max_str_digits then None
      else case s of [] \<Rightarrow> None
      | c # cs \<Rightarrow> if is_digit c then parse_digits (digit_val c) cs else None)"

definition py_int :: "string \<Rightarrow> int option" where
  "py_int s =
     (case rev (dropWhile int_space (rev (dropWhile int_space s))) of
        [] \<Rightarrow> None
      | c # cs \<Rightarrow>
          if c = CHR ''+'' then map_option int (parse_unsigned cs)
          else if c = CHR ''-'' then map_option (\<lambda>n. - int n) (parse_unsigned cs)
          else map_option int (parse_unsigned (c # cs)))"

text \<open>\<open>str(n)\<close> for a natural number: its decimal digits.\<close>

fun py_str_nat :: "nat \<Rightarrow> string" where
  "py_str_nat n =
     (if n < 10 then [char_of (48 + n)]
      else py_str_nat (n div 10) @ [char_of (48 + n mod 10)])"

declare py_str_nat.simps [simp del]

definition py_str_int :: "int \<Rightarrow> string" where
  "py_str_int n = (if n < 0 then CHR ''-'' # py_str_nat (nat (- n)) else py_str_nat (nat n))"


section \<open>Validation library (app/utils/validators.py, app/utils/auth.py)\<close>

text \<open>
  A validator returns the pair \<open>(is_valid, error_message)\<close>. A message built by an
  f-string with one interpolated value is kept as its literal text and the value.
\<close>

datatype message = Text string | Interp string json

type_synonym vresult = "bool \<times> message option"

text \<open>
  \<open>validate_port(port)\<close>. \<open>int(port)\<close> parses a string, is the number itself for an
  integer and 0 or 1 for a boolean; on a list or a dict it raises TypeError, on a bad
  string ValueError, and the function catches both.
\<close>

fun int_of_json :: "json \<Rightarrow> int option" where
  "int_of_json (JStr s) = py_int s"
| "int_of_json (JNum n) = Some n"
| "int_of_json (JBool b) = Some (if b then 1 else 0)"
| "int_of_json JNull = None"
| "int_of_json (JArr xs) = None"
| "int_of_json (JObj kvs) = None"

definition validate_port :: "json \<Rightarrow> vresult" where
  "validate_port port =
     (if port = JNull \<or> port = JStr [] then (True, None)
      else case int_of_json port of
        Some port_num \<Rightarrow>
          if 1 \<le> port_num \<and> port_num \<le> 65535 then (True, None)
          else (False, Some (Interp ''Port must be between 1 and 65535: '' port))
      | None \<Rightarrow> (False, Some (Interp ''Invalid port number: '' port)))"

text \<open>
  \<open>validate_port_range(port_range_str)\<close> on a string. The two \<open>int(...)\<close> calls of the
  ordering test are outside any \<open>try\<close>: a ValueError there leaves the function.
\<close>

definition validate_port_range :: "string \<Rightarrow> py_error + vresult" where
  "validate_port_range port_range_str =
     (if port_range_str = [] then Inr (True, None)
      else if CHR ''-'' \<in> set port_range_str then
        (let parts = py_split CHR ''-'' port_range_str in
         if length parts \<noteq> 2 then
           Inr (False, Some (Interp ''Invalid port range format: '' (JStr port_range_str)))
         else if \<not> fst (validate_port (JStr (parts ! 0))) then
           Inr (False, snd (validate_port (JStr (parts ! 0))))
         else if \<not> fst (validate_port (JStr (parts ! 1))) then
           Inr (False, snd (validate_port (JStr (parts ! 1))))
         else
           (case py_int (parts ! 0) of
              None \<Rightarrow> Inl ValueError
            | Some a \<Rightarrow>
                (case py_int (parts ! 1) of
                   None \<Rightarrow> Inl ValueError
                 | Some b \<Rightarrow>
                     if a > b then
                       Inr (False, Some (Interp
                         ''Port range start must be less than or equal to end: ''
                         (JStr port_range_str)))
                     else Inr (True, None))))
      else Inr (validate_port (JStr port_range_str)))"

text \<open>\<open>validate_tags(tags)\<close>: the loop over the tags, then the function.\<close>

fun check_tags :: "json list \<Rightarrow> py_error + vresult" where
  "check_tags [] = Inr (True, None)"
| "check_tags (tag # rest) =
     (case py_len tag of
        Inl e \<Rightarrow> Inl e
      | Inr n \<Rightarrow>
          if n > 50 then Inr (False, Some (Interp ''Tag too long (max 50 characters): '' tag))
          else check_tags rest)"

definition validate_tags :: "json \<Rightarrow> py_error + vresult" where
  "validate_tags tags =
     (if \<not> truthy tags then Inr (True, None)
      else case tags of
        JStr s \<Rightarrow> check_tags (map (\<lambda>tag. JStr (py_strip tag)) (py_split CHR '','' s))
      | JArr ts \<Rightarrow> check_tags ts
      | _ \<Rightarrow> Inr (False, Some (Text ''Tags must be a list or comma-separated string'')))"

text \<open>\<open>validate_username(username)\<close> on a string.\<close>

definition validate_username :: "string \<Rightarrow> vresult" where
  "validate_username username =
     (if length username < 3 then
        (False, Some (Text ''Username must be at least 3 characters long''))
      else if length username > 80 then
        (False, Some (Text ''Username must be less than 80 characters''))
      else if \<not> py_isalnum (py_remove CHR ''-'' (py_remove CHR ''_'' username)) then
        (False, Some (Text
          ''Username can only contain letters, numbers, hyphens, and underscores''))
      else (True, None))"

text \<open>\<open>validate_config_type(config_type)\<close>: membership in the fixed list.\<close>

definition valid_types :: "string list" where
  "valid_types = [''ipsec'', ''sdwan'', ''firewall'', ''interface'', ''ha'', ''saml'',
                  ''routing'', ''dns'', ''dhcp'', ''vpn'', ''other'']"

definition validate_config_type :: "string \<Rightarrow> vresult" where
  "validate_config_type config_type =
     (if config_type \<notin> set valid_types then
        (False, Some (Text (''Invalid configuration type. Must be one of: ''
                            @ py_join '', '' valid_types)))
      else (True, None))"

section \<open>Domain entities (app/models)\<close>

text \<open>
  A row of \<open>configurations\<close>. The two JSON text columns hold \<open>json.dumps\<close> of a
  document and are read back with \<open>json.loads\<close>; the embedding keeps the document.
  \<open>tags\<close> holds the Python value of the attribute: a string or \<open>None\<close> in a stored
  row, and between an assignment and the flush the value the handler assigned.
  Timestamps are clock readings.
\<close>

record Configuration =
  c_id :: nat
  user_id :: nat
  config_type :: string
  name :: string
  description :: string
  data_json :: json
  tags :: json
  is_template :: bool
  created_at :: nat
  updated_at :: nat

definition set_data :: "json \<Rightarrow> Configuration \<Rightarrow> Configuration" where
  "set_data data_dict config = config\<lparr>data_json := data_dict\<rparr>"

definition get_data :: "Configuration \<Rightarrow> json" where
  "get_data config = data_json config"

text \<open>
  \<open>get_tags_list\<close>: the stripped parts of the comma-joined text, or the empty list when
  the attribute is falsy. A truthy value without \<open>split\<close> raises AttributeError.
\<close>

definition get_tags_list :: "Configuration \<Rightarrow> py_error + string list" where
  "get_tags_list config =
     (if truthy (tags config) then
        (case tags config of
           JStr s \<Rightarrow> Inr (map py_strip (py_split CHR '','' s))
         | _ \<Rightarrow> Inl AttributeError)
      else Inr [])"

text \<open>
  \<open>set_tags_list\<close>: \<open>','.join(tag.strip() for tag in tags_list if tag.strip())\<close>. An
  element that is not a string has no \<open>strip\<close> and raises AttributeError.
\<close>

fun stripped_tags :: "json list \<Rightarrow> py_error + string list" where
  "stripped_tags [] = Inr []"
| "stripped_tags (JStr tag # rest) =
     (case stripped_tags rest of
        Inl e \<Rightarrow> Inl e
      | Inr ts \<Rightarrow> Inr (if py_strip tag \<noteq> [] then py_strip tag # ts else ts))"
| "stripped_tags (other # rest) = Inl AttributeError"

definition set_tags_list :: "json list \<Rightarrow> Configuration \<Rightarrow> py_error + Configuration" where
  "set_tags_list tags_list config =
     (case stripped_tags tags_list of
        Inl e \<Rightarrow> Inl e
      | Inr ts \<Rightarrow> Inr (config\<lparr>tags := JStr (py_join '','' ts)\<rparr>))"

text \<open>
  A row of \<open>configuration_versions\<close>. \<open>change_description\<close> is a text column: a
  string or \<open>None\<close>.
\<close>

record ConfigurationVersion =
  v_id :: nat
  config_id :: nat
  version :: nat
  v_data_json :: json
  change_description :: json
  v_created_at :: nat
  created_by :: nat

record AuditLog =
  a_id :: nat
  a_user_id :: nat
  action :: string
  resource_type :: string
  resource_id :: "nat option"
  details :: "json option"
  ip_address :: "string option"
  user_agent :: "string option"
  a_created_at :: nat

section \<open>The store\<close>

text \<open>
  The three tables, each in insertion order. A request is handled against the store and
  leaves a new one; a request that ends in an error before \<open>commit\<close> leaves the store
  as it was (the session is discarded).
\<close>

record store =
  configurations :: "Configuration list"
  configuration_versions :: "ConfigurationVersion list"
  audit_log :: "AuditLog list"

definition empty_store :: store where
  "empty_store = \<lparr>configurations = [], configuration_versions = [], audit_log = []\<rparr>"

text \<open>
  Primary keys are assigned by the engine. The embedding takes one more than the largest
  key in the table; the proofs use only that the key is not in the table.
\<close>

definition next_id :: "nat list \<Rightarrow> nat" where
  "next_id ids = Suc (fold max ids 0)"

text \<open>
  The engine is SQLite (config.py). An integer bound to a statement must fit 64 bits,
  signed: beyond that the driver raises OverflowError. A value bound to a text column
  (\<open>Text\<close>, \<open>String\<close>) is stored as it is when it is a string or \<open>None\<close>, as its
  decimal text when it is an integer or a boolean (1 or 0), and is refused when it is a
  list or a dict.
\<close>

definition sqlite_int :: "int \<Rightarrow> bool" where
  "sqlite_int n = (- (2 ^ 63) \<le> n \<and> n < 2 ^ 63)"

fun text_column :: "json \<Rightarrow> py_error + json" where
  "text_column (JStr s) = Inr (JStr s)"
| "text_column JNull = Inr JNull"
| "text_column (JBool b) = Inr (JStr (if b then ''1'' else ''0''))"
| "text_column (JNum n) =
     (if sqlite_int n then Inr (JStr (py_str_int n)) else Inl OverflowError)"
| "text_column (JArr xs) = Inl StoreError"
| "text_column (JObj kvs) = Inl StoreError"

text \<open>An integer bound to a statement.\<close>

definition integer_column :: "nat \<Rightarrow> py_error + nat" where
  "integer_column n = (if sqlite_int (int n) then Inr n else Inl OverflowError)"

text \<open>
  \<open>db.session.get(Configuration, config_id)\<close>: the key comes from the route and is
  bound to the query.
\<close>

definition get_Configuration :: "store \<Rightarrow> nat \<Rightarrow> py_error + Configuration option" where
  "get_Configuration s i =
     (if sqlite_int (int i) then Inr (find (\<lambda>c. c_id c = i) (configurations s))
      else Inl OverflowError)"

text \<open>The rows of \<open>configuration_versions\<close> of one configuration.\<close>

definition versions_of :: "store \<Rightarrow> nat \<Rightarrow> ConfigurationVersion list" where
  "versions_of s i = filter (\<lambda>v. config_id v = i) (configuration_versions s)"

text \<open>SQL \<open>MAX\<close>: no value over no rows.\<close>

fun sql_max :: "nat list \<Rightarrow> nat option" where
  "sql_max [] = None"
| "sql_max (x # xs) = (case sql_max xs of None \<Rightarrow> Some x | Some m \<Rightarrow> Some (max x m))"

text \<open>\<open>ConfigurationVersion.get_next_version_number\<close>: \<open>(last_version or 0) + 1\<close>.\<close>

definition get_next_version_number :: "store \<Rightarrow> nat \<Rightarrow> nat" where
  "get_next_version_number s i =
     (case sql_max (map version (versions_of s i)) of
        None \<Rightarrow> 0
      | Some last_version \<Rightarrow> last_version) + 1"

text \<open>
  Inserting a version row: the unique constraint \<open>unique_config_version\<close> on
  \<open>(config_id, version)\<close> makes the insert fail when the pair is present.
\<close>

definition add_version :: "ConfigurationVersion \<Rightarrow> store \<Rightarrow> py_error + store" where
  "add_version v s =
     (if (config_id v, version v)
           \<in> set (map (\<lambda>w. (config_id w, version w)) (configuration_versions s))
      then Inl StoreError
      else Inr (s\<lparr>configuration_versions :=
                   configuration_versions s
                   @ [v\<lparr>v_id := next_id (map v_id (configuration_versions s))\<rparr>]\<rparr>))"

text \<open>What \<open>get_request_info()\<close> reads from the request.\<close>

record request_info =
  ri_ip_address :: "string option"
  ri_user_agent :: string

text \<open>\<open>AuditLog.log\<close>: one more row; \<open>details\<close> is set only when truthy.\<close>

definition AuditLog_log ::
  "nat \<Rightarrow> nat \<Rightarrow> string \<Rightarrow> string \<Rightarrow> nat option \<Rightarrow> json \<Rightarrow> request_info \<Rightarrow> store \<Rightarrow> store" where
  "AuditLog_log now uid act rtype rid dets info s =
     s\<lparr>audit_log := audit_log s @
         [\<lparr>a_id = next_id (map a_id (audit_log s)), a_user_id = uid, action = act,
           resource_type = rtype, resource_id = rid,
           details = (if truthy dets then Some dets else None),
           ip_address = ri_ip_address info, user_agent = Some (ri_user_agent info),
           a_created_at = now\<rparr>]\<rparr>"

section \<open>Responses (app/utils/responses.py, app/utils/errors.py)\<close>

text \<open>
  The data of a success response: the rows whose \<open>to_dict()\<close> the handler returns.
\<close>

datatype payload =
    NoData
  | ConfigData Configuration
  | ConfigList "Configuration list"
  | VersionData ConfigurationVersion
  | VersionList "ConfigurationVersion list"

text \<open>
  \<open>success_response(data, message, status_code)\<close> and
  \<open>error_response(message, errors, status_code)\<close>.
\<close>

datatype response =
    Success nat "string option" payload
  | Failure nat string "(string \<times> message option) list"

fun status :: "response \<Rightarrow> nat" where
  "status (Success code msg d) = code"
| "status (Failure code msg errs) = code"

definition not_found_response :: "string \<Rightarrow> response" where
  "not_found_response resource = Failure 404 (resource @ '' not found'') []"

definition forbidden_response :: "string \<Rightarrow> response" where
  "forbidden_response msg = Failure 403 msg []"

definition validation_error_response :: "(string \<times> message option) list \<Rightarrow> response" where
  "validation_error_response errors = Failure 422 ''Validation failed'' errors"

text \<open>An exception that leaves a handler is answered by the global error handlers.\<close>

fun error_handler :: "py_error \<Rightarrow> response" where
  "error_handler StoreError = Failure 500 ''Database Error'' []"
| "error_handler ValueError = Failure 500 ''Unexpected Error'' []"
| "error_handler TypeError = Failure 500 ''Unexpected Error'' []"
| "error_handler AttributeError = Failure 500 ''Unexpected Error'' []"
| "error_handler KeyError = Failure 500 ''Unexpected Error'' []"
| "error_handler OverflowError = Failure 500 ''Unexpected Error'' []"

section \<open>Request bodies\<close>

text \<open>
  The operations the handlers apply to the parsed body: \<open>key in data\<close>, \<open>data[key]\<close>,
  \<open>data.get(key, default)\<close> and \<open>value.strip()\<close>, each with the exception Python raises
  on a value of another type.
\<close>

fun py_in :: "string \<Rightarrow> json \<Rightarrow> py_error + bool" where
  "py_in k (JObj kvs) = Inr (k \<in> set (map fst kvs))"
| "py_in k (JArr xs) = Inr (JStr k \<in> set xs)"
| "py_in k (JStr s) = Inr (sublist k s)"
| "py_in k JNull = Inl TypeError"
| "py_in k (JBool b) = Inl TypeError"
| "py_in k (JNum n) = Inl TypeError"

fun py_getitem :: "json \<Rightarrow> string \<Rightarrow> py_error + json" where
  "py_getitem (JObj kvs) k = (case map_of kvs k of None \<Rightarrow> Inl KeyError | Some v \<Rightarrow> Inr v)"
| "py_getitem other k = Inl TypeError"

fun py_get :: "json \<Rightarrow> string \<Rightarrow> json \<Rightarrow> py_error + json" where
  "py_get (JObj kvs) k dflt = Inr (case map_of kvs k of None \<Rightarrow> dflt | Some v \<Rightarrow> v)"
| "py_get other k dflt = Inl AttributeError"

fun py_str_strip :: "json \<Rightarrow> py_error + string" where
  "py_str_strip (JStr s) = Inr (py_strip s)"
| "py_str_strip other = Inl AttributeError"

text \<open>
  A handler stops early either by an exception or by returning a response.
\<close>

datatype abort = Raised py_error | Returned response

definition then_do :: "abort + 'a \<Rightarrow> ('a \<Rightarrow> abort + 'b) \<Rightarrow> abort + 'b" where
  "then_do m f = (case m of Inl a \<Rightarrow> Inl a | Inr x \<Rightarrow> f x)"

definition lift :: "py_error + 'a \<Rightarrow> abort + 'a" where
  "lift m = (case m of Inl e \<Rightarrow> Inl (Raised e) | Inr x \<Rightarrow> Inr x)"

fun answer :: "abort \<Rightarrow> response" where
  "answer (Raised e) = error_handler e"
| "answer (Returned r) = r"

text \<open>
  The column \<open>is_template\<close> is \<open>Boolean, nullable=False, default=False\<close>: when the
  session is flushed the column type accepts a boolean, 0 and 1 and raises on any other
  value. On an update \<open>None\<close> violates the NOT NULL constraint; on an insert \<open>None\<close>
  is left out of the statement and the default applies. The handlers assign the
  request's value and flush later; every step in between either completes or raises as
  well, so the request is answered 500 either way and the embedding checks the value
  where it is assigned.
\<close>

fun boolean_column :: "json \<Rightarrow> py_error + bool" where
  "boolean_column (JBool b) = Inr b"
| "boolean_column (JNum n) = (if n = 0 then Inr False else if n = 1 then Inr True else Inl StoreError)"
| "boolean_column other = Inl StoreError"

fun boolean_column_insert :: "json \<Rightarrow> py_error + bool" where
  "boolean_column_insert JNull = Inr False"
| "boolean_column_insert v = boolean_column v"

section \<open>Configuration routes (app/routes/configs.py)\<close>

text \<open>
  Every handler takes the identity of the authenticated caller (\<open>get_jwt_identity()\<close>),
  the request's parameters and the store, and returns the response and the store it
  leaves. Handlers that write also take the clock reading \<open>now\<close> and the request info.
  The identity is the key of a row of \<open>users\<close>: the server wrote it into the token at
  login. The handlers that insert a configuration bind it as \<open>user_id\<close> when the
  session is flushed.
\<close>

subsection \<open>\<open>create_configuration\<close>\<close>

definition create_checked ::
  "nat \<Rightarrow> nat \<Rightarrow> json \<Rightarrow> store \<Rightarrow> abort + (Configuration \<times> json)" where
  "create_checked now caller data s =
     then_do (lift (py_get data ''name'' JNull)) (\<lambda>name_field.
     if \<not> truthy name_field then
       Inl (Returned (Failure 400 ''Configuration name is required'' []))
     else
     then_do (lift (py_get data ''config_type'' JNull)) (\<lambda>type_field.
     if \<not> truthy type_field then
       Inl (Returned (Failure 400 ''Configuration type is required'' []))
     else
     then_do (lift (py_get data ''data'' JNull)) (\<lambda>data_field.
     if \<not> truthy data_field then
       Inl (Returned (Failure 400 ''Configuration data is required'' []))
     else
     then_do (lift (py_str_strip name_field)) (\<lambda>name'.
     then_do (lift (py_str_strip type_field)) (\<lambda>config_type'.
     then_do (lift (py_get data ''description'' (JStr []))) (\<lambda>description_field.
     then_do (lift (py_str_strip description_field)) (\<lambda>description'.
     then_do (lift (py_get data ''tags'' (JArr []))) (\<lambda>tags'.
     then_do (lift (py_get data ''is_template'' (JBool False))) (\<lambda>is_template'.
     then_do (lift (validate_tags tags')) (\<lambda>tags_result.
     let errors =
           (if \<not> fst (validate_config_type config_type')
            then [(''config_type'', snd (validate_config_type config_type'))] else [])
           @ (if \<not> fst tags_result then [(''tags'', snd tags_result)] else [])
     in
     if errors \<noteq> [] then Inl (Returned (validation_error_response errors))
     else
     let config = set_data data_field
           \<lparr>c_id = next_id (map c_id (configurations s)), user_id = caller,
            config_type = config_type', name = name', description = description',
            data_json = JNull, tags = JNull, is_template = False,
            created_at = now, updated_at = now\<rparr>
     in
     then_do
       (if truthy tags' then
          (case tags' of
             JArr ts \<Rightarrow> lift (set_tags_list ts config)
           | _ \<Rightarrow> Inr (config\<lparr>tags := tags'\<rparr>))
        else Inr config) (\<lambda>config.
     then_do (lift (boolean_column_insert is_template')) (\<lambda>b.
     then_do (lift (integer_column caller)) (\<lambda>owner.
     Inr (config\<lparr>is_template := b\<rparr>, data_field))))))))))))))"

definition create_configuration ::
  "nat \<Rightarrow> request_info \<Rightarrow> nat \<Rightarrow> json \<Rightarrow> store \<Rightarrow> response \<times> store" where
  "create_configuration now info caller data s =
     (if \<not> truthy data then (Failure 400 ''No data provided'' [], s)
      else case create_checked now caller data s of
        Inl a \<Rightarrow> (answer a, s)
      | Inr (config, config_data) \<Rightarrow>
          (case add_version
                  \<lparr>v_id = 0, config_id = c_id config, version = 1, v_data_json = config_data,
                   change_description = JStr ''Initial version'', v_created_at = now,
                   created_by = caller\<rparr>
                  (s\<lparr>configurations := configurations s @ [config]\<rparr>) of
             Inl e \<Rightarrow> (error_handler e, s)
           | Inr s' \<Rightarrow>
               (Success 201 (Some ''Configuration created successfully'') (ConfigData config),
                AuditLog_log now caller ''create'' ''configuration'' (Some (c_id config))
                  (JObj [(''name'', JStr (name config)),
                         (''config_type'', JStr (config_type config))])
                  info s')))"

subsection \<open>\<open>get_configuration\<close>\<close>

definition get_configuration :: "nat \<Rightarrow> nat \<Rightarrow> store \<Rightarrow> response \<times> store" where
  "get_configuration caller i s =
     (case get_Configuration s i of
        Inl e \<Rightarrow> (error_handler e, s)
      | Inr None \<Rightarrow> (not_found_response ''Configuration'', s)
      | Inr (Some config) \<Rightarrow>
          if user_id config \<noteq> caller then
            (forbidden_response ''You do not have permission to access this configuration'', s)
          else (Success 200 None (ConfigData config), s))"

subsection \<open>\<open>update_configuration\<close>\<close>

text \<open>The five \<open>if key in data\<close> blocks, in the order of the source.\<close>

definition update_name :: "json \<Rightarrow> Configuration \<Rightarrow> abort + Configuration" where
  "update_name data config =
     then_do (lift (py_in ''name'' data)) (\<lambda>present.
     if present then
       then_do (lift (py_getitem data ''name'')) (\<lambda>v.
       then_do (lift (py_str_strip v)) (\<lambda>n. Inr (config\<lparr>name := n\<rparr>)))
     else Inr config)"

definition update_description :: "json \<Rightarrow> Configuration \<Rightarrow> abort + Configuration" where
  "update_description data config =
     then_do (lift (py_in ''description'' data)) (\<lambda>present.
     if present then
       then_do (lift (py_getitem data ''description'')) (\<lambda>v.
       then_do (lift (py_str_strip v)) (\<lambda>d. Inr (config\<lparr>description := d\<rparr>)))
     else Inr config)"

definition update_tags :: "json \<Rightarrow> Configuration \<Rightarrow> abort + Configuration" where
  "update_tags data config =
     then_do (lift (py_in ''tags'' data)) (\<lambda>present.
     if present then
       then_do (lift (py_getitem data ''tags'')) (\<lambda>tags'.
       then_do (lift (validate_tags tags')) (\<lambda>tags_result.
       if \<not> fst tags_result then
         Inl (Returned (validation_error_response [(''tags'', snd tags_result)]))
       else
         (case tags' of
            JArr ts \<Rightarrow> lift (set_tags_list ts config)
          | _ \<Rightarrow> Inr (config\<lparr>tags := tags'\<rparr>))))
     else Inr config)"

definition update_is_template :: "json \<Rightarrow> Configuration \<Rightarrow> abort + Configuration" where
  "update_is_template data config =
     then_do (lift (py_in ''is_template'' data)) (\<lambda>present.
     if present then
       then_do (lift (py_getitem data ''is_template'')) (\<lambda>v.
       then_do (lift (boolean_column v)) (\<lambda>b. Inr (config\<lparr>is_template := b\<rparr>)))
     else Inr config)"

definition update_data :: "json \<Rightarrow> Configuration \<Rightarrow> abort + (Configuration \<times> bool)" where
  "update_data data config =
     then_do (lift (py_in ''data'' data)) (\<lambda>present.
     if present then
       then_do (lift (py_getitem data ''data'')) (\<lambda>v. Inr (set_data v config, True))
     else Inr (config, False))"

definition update_fields :: "json \<Rightarrow> Configuration \<Rightarrow> abort + (Configuration \<times> bool)" where
  "update_fields data config =
     then_do (update_name data config) (\<lambda>config.
     then_do (update_description data config) (\<lambda>config.
     then_do (update_tags data config) (\<lambda>config.
     then_do (update_is_template data config) (\<lambda>config.
     update_data data config))))"

text \<open>
  The new version row, when the data changed: its number from
  \<open>get_next_version_number\<close>, its description from the body or the default, as the text
  column stores it.
\<close>

definition update_version ::
  "nat \<Rightarrow> nat \<Rightarrow> json \<Rightarrow> nat \<Rightarrow> bool \<Rightarrow> store \<Rightarrow> abort + store" where
  "update_version now caller data i data_changed s =
     (if data_changed then
        then_do (lift (py_get data ''change_description'' (JStr ''Configuration updated'')))
          (\<lambda>given.
        then_do (lift (py_getitem data ''data'')) (\<lambda>v.
        then_do (lift (text_column given)) (\<lambda>descr.
        lift (add_version
                \<lparr>v_id = 0, config_id = i, version = get_next_version_number s i,
                 v_data_json = v, change_description = descr, v_created_at = now,
                 created_by = caller\<rparr> s))))
      else Inr s)"

text \<open>
  Writing the row. The update statement is issued when an attribute differs from the
  loaded row; it binds the changed columns, so a changed \<open>tags\<close> goes through the text
  column, and \<open>updated_at\<close> has \<open>onupdate\<close>, so it is set.
\<close>

definition flush_configuration ::
  "nat \<Rightarrow> Configuration \<Rightarrow> Configuration \<Rightarrow> py_error + Configuration" where
  "flush_configuration now old new =
     (if new = old then Inr old
      else case (if tags new = tags old then Inr (tags new) else text_column (tags new)) of
        Inl e \<Rightarrow> Inl e
      | Inr t \<Rightarrow> Inr (new\<lparr>tags := t, updated_at := now\<rparr>))"

definition put_configuration :: "Configuration \<Rightarrow> store \<Rightarrow> store" where
  "put_configuration row s =
     s\<lparr>configurations :=
         map (\<lambda>c. if c_id c = c_id row then row else c) (configurations s)\<rparr>"

definition update_configuration ::
  "nat \<Rightarrow> request_info \<Rightarrow> nat \<Rightarrow> json \<Rightarrow> nat \<Rightarrow> store \<Rightarrow> response \<times> store" where
  "update_configuration now info caller data i s =
     (if \<not> truthy data then (Failure 400 ''No data provided'' [], s)
      else case get_Configuration s i of
        Inl e \<Rightarrow> (error_handler e, s)
      | Inr None \<Rightarrow> (not_found_response ''Configuration'', s)
      | Inr (Some config) \<Rightarrow>
          if user_id config \<noteq> caller then
            (forbidden_response ''You do not have permission to modify this configuration'', s)
          else
            (case then_do (update_fields data config) (\<lambda>(config', data_changed).
                  then_do (lift (flush_configuration now config config')) (\<lambda>row.
                  then_do (update_version now caller data i data_changed
                             (put_configuration row s)) (\<lambda>s'.
                  Inr (row, data_changed, s')))) of
               Inl a \<Rightarrow> (answer a, s)
             | Inr (row, data_changed, s') \<Rightarrow>
                 (Success 200 (Some ''Configuration updated successfully'') (ConfigData row),
                  AuditLog_log now caller ''update'' ''configuration'' (Some i)
                    (JObj [(''name'', JStr (name row)),
                           (''data_changed'', JBool data_changed)])
                    info s')))"

subsection \<open>\<open>delete_configuration\<close>\<close>

text \<open>The relationship has \<open>cascade='all, delete-orphan'\<close>: the versions go with the row.\<close>

definition delete_configuration ::
  "nat \<Rightarrow> request_info \<Rightarrow> nat \<Rightarrow> nat \<Rightarrow> store \<Rightarrow> response \<times> store" where
  "delete_configuration now info caller i s =
     (case get_Configuration s i of
        Inl e \<Rightarrow> (error_handler e, s)
      | Inr None \<Rightarrow> (not_found_response ''Configuration'', s)
      | Inr (Some config) \<Rightarrow>
          if user_id config \<noteq> caller then
            (forbidden_response ''You do not have permission to delete this configuration'', s)
          else
            (Success 200 (Some ''Configuration deleted successfully'') NoData,
             AuditLog_log now caller ''delete'' ''configuration'' (Some i)
               (JObj [(''name'', JStr (name config))]) info
               (s\<lparr>configurations := filter (\<lambda>c. c_id c \<noteq> i) (configurations s),
                  configuration_versions :=
                    filter (\<lambda>v. config_id v \<noteq> i) (configuration_versions s)\<rparr>)))"

subsection \<open>\<open>get_configuration_versions\<close> and \<open>get_configuration_version\<close>\<close>

text \<open>
  \<open>config.versions\<close> is ordered by \<open>version\<close>, descending. The version number of
  the second handler comes from the route and is bound to its query.
\<close>

definition get_configuration_versions :: "nat \<Rightarrow> nat \<Rightarrow> store \<Rightarrow> response \<times> store" where
  "get_configuration_versions caller i s =
     (case get_Configuration s i of
        Inl e \<Rightarrow> (error_handler e, s)
      | Inr None \<Rightarrow> (not_found_response ''Configuration'', s)
      | Inr (Some config) \<Rightarrow>
          if user_id config \<noteq> caller then
            (forbidden_response ''You do not have permission to access this configuration'', s)
          else
            (Success 200 None (VersionList (rev (sort_key version (versions_of s i)))), s))"

definition get_configuration_version ::
  "nat \<Rightarrow> nat \<Rightarrow> nat \<Rightarrow> store \<Rightarrow> response \<times> store" where
  "get_configuration_version caller i version_number s =
     (case get_Configuration s i of
        Inl e \<Rightarrow> (error_handler e, s)
      | Inr None \<Rightarrow> (not_found_response ''Configuration'', s)
      | Inr (Some config) \<Rightarrow>
          if user_id config \<noteq> caller then
            (forbidden_response ''You do not have permission to access this configuration'', s)
          else if \<not> sqlite_int (int version_number) then (error_handler OverflowError, s)
          else
            (case find (\<lambda>v. config_id v = i \<and> version v = version_number)
                       (configuration_versions s) of
               None \<Rightarrow> (not_found_response ''Version'', s)
             | Some v \<Rightarrow> (Success 200 None (VersionData v), s)))"

section \<open>Template routes (app/routes/templates.py)\<close>

text \<open>
  \<open>list_templates\<close>: the query filters on \<open>is_template\<close> alone and orders by
  \<open>updated_at\<close>, descending; the caller's identity is not read. The order among rows of
  equal \<open>updated_at\<close> is the engine's; the embedding fixes one.
\<close>

definition list_templates :: "nat \<Rightarrow> store \<Rightarrow> response \<times> store" where
  "list_templates caller s =
     (Success 200 None
        (ConfigList (rev (sort_key updated_at (filter is_template (configurations s))))), s)"

definition create_from_template ::
  "nat \<Rightarrow> request_info \<Rightarrow> nat \<Rightarrow> nat \<Rightarrow> store \<Rightarrow> response \<times> store" where
  "create_from_template now info caller template_id s =
     (case get_Configuration s template_id of
        Inl e \<Rightarrow> (error_handler e, s)
      | Inr None \<Rightarrow> (not_found_response ''Template'', s)
      | Inr (Some template) \<Rightarrow>
          if \<not> is_template template then
            (Failure 400 ''This configuration is not a template'' [], s)
          else if \<not> sqlite_int (int caller) then (error_handler OverflowError, s)
          else
            (let new_config = set_data (get_data template)
                   \<lparr>c_id = next_id (map c_id (configurations s)), user_id = caller,
                    config_type = config_type template,
                    name = name template @ '' - New'',
                    description = ''Created from template: '' @ name template,
                    data_json = JNull,
                    tags = (if truthy (tags template) then tags template else JNull),
                    is_template = False, created_at = now, updated_at = now\<rparr>
             in case add_version
                  \<lparr>v_id = 0, config_id = c_id new_config, version = 1,
                   v_data_json = get_data template,
                   change_description =
                     JStr (''Created from template '' @ [CHR 0x22] @ name template @ [CHR 0x22]),
                   v_created_at = now, created_by = caller\<rparr>
                  (s\<lparr>configurations := configurations s @ [new_config]\<rparr>) of
                Inl e \<Rightarrow> (error_handler e, s)
              | Inr s' \<Rightarrow>
                  (Success 201 (Some ''Configuration created from template'')
                     (ConfigData new_config),
                   AuditLog_log now caller ''create_from_template'' ''configuration''
                     (Some (c_id new_config))
                     (JObj [(''template_id'', JNum (int template_id)),
                            (''template_name'', JStr (name template))])
                     info s')))"

section \<open>Requests\<close>

text \<open>
  A request names a handler and its parameters. \<open>run\<close> handles a list of requests one
  after the other, starting from the empty store.
\<close>

datatype request =
    CreateConfiguration nat request_info nat json
  | GetConfiguration nat nat
  | UpdateConfiguration nat request_info nat json nat
  | DeleteConfiguration nat request_info nat nat
  | GetConfigurationVersions nat nat
  | GetConfigurationVersion nat nat nat
  | ListTemplates nat
  | CreateFromTemplate nat request_info nat nat

fun handle :: "request \<Rightarrow> store \<Rightarrow> response \<times> store" where
  "handle (CreateConfiguration now info caller data) s = create_configuration now info caller data s"
| "handle (GetConfiguration caller i) s = get_configuration caller i s"
| "handle (UpdateConfiguration now info caller data i) s = update_configuration now info caller data i s"
| "handle (DeleteConfiguration now info caller i) s = delete_configuration now info caller i s"
| "handle (GetConfigurationVersions caller i) s = get_configuration_versions caller i s"
| "handle (GetConfigurationVersion caller i n) s = get_configuration_version caller i n s"
| "handle (ListTemplates caller) s = list_templates caller s"
| "handle (CreateFromTemplate now info caller i) s = create_from_template now info caller i s"

definition run :: "request list \<Rightarrow> store" where
  "run rs = fold (\<lambda>r s. snd (handle r s)) rs empty_store"

section \<open>Inputs used in the properties\<close>

text \<open>The values the last clause of the tags rule speaks about: neither a list nor a string.\<close>

fun is_list_or_str :: "json \<Rightarrow> bool" where
  "is_list_or_str (JStr s) = True"
| "is_list_or_str (JArr xs) = True"
| "is_list_or_str JNull = False"
| "is_list_or_str (JBool b) = False"
| "is_list_or_str (JNum n) = False"
| "is_list_or_str (JObj kvs) = False"

text \<open>A configuration row and a request info for the concrete instances.\<close>

definition example_configuration :: Configuration where
  "example_configuration =
     \<lparr>c_id = 1, user_id = 1, config_type = ''ipsec'', name = ''T1'', description = [],
      data_json = JObj [(''k'', JStr ''v'')], tags = JNull, is_template = False,
      created_at = 0, updated_at = 0\<rparr>"

definition example_info :: request_info where
  "example_info = \<lparr>ri_ip_address = Some ''127.0.0.1'', ri_user_agent = ''curl''\<rparr>"

definition example_template :: Configuration where
  "example_template =
     \<lparr>c_id = 2, user_id = 2, config_type = ''ipsec'', name = ''Base'', description = [],
      data_json = JObj [(''k'', JStr ''w'')], tags = JStr ''aws,vpn'', is_template = True,
      created_at = 3, updated_at = 5\<rparr>"

definition example_version :: "nat \<Rightarrow> nat \<Rightarrow> json \<Rightarrow> nat \<Rightarrow> ConfigurationVersion" where
  "example_version k i d u =
     \<lparr>v_id = k, config_id = i, version = 1, v_data_json = d,
      change_description = JStr ''Initial version'', v_created_at = 0, created_by = u\<rparr>"

text \<open>A store with a configuration of user 1 and a template of user 2.\<close>

definition example_store :: store where
  "example_store =
     \<lparr>configurations = [example_configuration, example_template],
      configuration_versions =
        [example_version 1 1 (JObj [(''k'', JStr ''v'')]) 1,
         example_version 2 2 (JObj [(''k'', JStr ''w'')]) 2],
      audit_log = []\<rparr>"

section \<open>The version history of a store\<close>

definition version_numbers :: "store \<Rightarrow> nat \<Rightarrow> nat list" where
  "version_numbers s i = map version (versions_of s i)"

text \<open>
  A store is well versioned when the keys of the configurations are distinct, no two
  version rows share \<open>(config_id, version)\<close>, every version row belongs to a
  configuration of the store, and the version numbers of every configuration are
  exactly 1 up to the number of its versions, of which there is at least one.
\<close>

definition contiguous_versions :: "store \<Rightarrow> nat \<Rightarrow> bool" where
  "contiguous_versions s i =
     (versions_of s i \<noteq> []
      \<and> set (version_numbers s i) = {1..length (versions_of s i)})"

definition well_versioned :: "store \<Rightarrow> bool" where
  "well_versioned s =
     (distinct (map c_id (configurations s))
      \<and> distinct (map (\<lambda>v. (config_id v, version v)) (configuration_versions s))
      \<and> list_all (\<lambda>v. config_id v \<in> set (map c_id (configurations s)))
                  (configuration_versions s)
      \<and> list_all (\<lambda>c. contiguous_versions s (c_id c)) (configurations s))"

text \<open>Requests for the concrete instances: user 1 creates a template.\<close>

definition example_body :: json where
  "example_body =
     JObj [(''name'', JStr ''T1''), (''config_type'', JStr ''ipsec''),
           (''data'', JObj [(''k'', JStr ''v'')]), (''is_template'', JBool True)]"

definition example_patch :: json where
  "example_patch = JObj [(''data'', JObj [(''k'', JStr ''v2'')])]"

definition example_create :: request where
  "example_create = CreateConfiguration 1 example_info 1 example_body"

section \<open>Properties of the string primitives\<close>

lemma strip_fixed:
  assumes "s \<noteq> []" "\<not> P (hd s)" "\<not> P (last s)"
  shows "rev (dropWhile P (rev (dropWhile P s))) = s"
proof -
  from assms have front: "dropWhile P s = s" by (cases s) auto
  from assms have "rev s \<noteq> []" "\<not> P (hd (rev s))" by (simp_all add: hd_rev)
  then have "dropWhile P (rev s) = rev s" by (cases "rev s") auto
  with front show ?thesis by simp
qed

lemma py_strip_ends:
  assumes "py_strip s \<noteq> []"
  shows "\<not> isspace (hd (py_strip s)) \<and> \<not> isspace (last (py_strip s))"
proof -
  let ?u = "dropWhile isspace s"
  let ?v = "dropWhile isspace (rev ?u)"
  from assms have v: "?v \<noteq> []" by (simp add: py_strip_def)
  then have hv: "\<not> isspace (hd ?v)" by (simp add: hd_dropWhile)
  from v have u: "?u \<noteq> []" by (metis dropWhile.simps(1) rev.simps(1))
  then have hu: "\<not> isspace (hd ?u)" by (simp add: hd_dropWhile)
  obtain ws where ws: "rev ?u = ws @ ?v" by (metis takeWhile_dropWhile_id)
  have "last (rev ?u) = last (ws @ ?v)" by (rule arg_cong[OF ws])
  also have "\<dots> = last ?v" using v by (rule last_appendR)
  finally have "last ?v = hd ?u" using u by (simp add: last_rev)
  then have lv: "\<not> isspace (last ?v)" using hu by simp
  show ?thesis using v hv lv by (simp add: py_strip_def hd_rev last_rev)
qed

lemma py_strip_idem: "py_strip (py_strip s) = py_strip s"
proof (cases "py_strip s = []")
  case True
  have "py_strip [] = []" by (simp add: py_strip_def)
  with True show ?thesis by simp
next
  case False
  have "rev (dropWhile isspace (rev (dropWhile isspace (py_strip s)))) = py_strip s"
    using strip_fixed[OF False] py_strip_ends[OF False] by blast
  then show ?thesis by (simp add: py_strip_def[of "py_strip s"])
qed

lemma set_py_strip: "set (py_strip s) \<subseteq> set s"
proof -
  have "set (py_strip s) \<subseteq> set (dropWhile isspace s)"
    unfolding py_strip_def using set_dropWhileD by fastforce
  also have "\<dots> \<subseteq> set s" using set_dropWhileD by fastforce
  finally show ?thesis .
qed

lemma py_split_no_sep: "sep \<notin> set s \<Longrightarrow> py_split sep s = [s]"
  by (induction s) auto


lemma py_split_join:
  "ys \<noteq> [] \<Longrightarrow> list_all (\<lambda>t. sep \<notin> set t) ys \<Longrightarrow> py_split sep (py_join [sep] ys) = ys"
proof (induction "[sep]" ys rule: py_join.induct)
  case 1
  then show ?case by simp
next
  case (2 p)
  then show ?case by (simp add: py_split_no_sep)
next
  case (3 p q ps)
  have "py_split sep (p @ sep # py_join [sep] (q # ps)) = p # py_split sep (py_join [sep] (q # ps))"
    using 3(3) by (induction p) auto
  with 3 show ?case by simp
qed

lemma py_join_nonempty:
  "ys \<noteq> [] \<Longrightarrow> list_all (\<lambda>t. t \<noteq> []) ys \<Longrightarrow> py_join sep ys \<noteq> []"
  by (induction sep ys rule: py_join.induct) auto

section \<open>Properties of \<open>int\<close> and \<open>str\<close> on decimal numerals\<close>
















section \<open>Port ranges\<close>















text \<open>
  C9 fails on the code: on \<open>"80-"\<close> both sides pass \<open>validate_port\<close> (the empty side is
  an absent optional port) and the \<open>int('')\<close> of the ordering test raises ValueError.
\<close>

theorem validate_port_range_raises:
  "validate_port_range ''80-'' = Inl ValueError"
  by (simp add: validate_port_range_def validate_port_def py_int_def parse_unsigned_def
      is_digit_def digit_val_def int_space_def max_str_digits_def)

section \<open>Tags\<close>

lemma check_tags_strings:
  "\<exists>m. check_tags (map JStr xs) = Inr (list_all (\<lambda>t. length t \<le> 50) xs, m)"
  by (induction xs) auto

lemma validate_tags_falsy: "\<not> truthy v \<Longrightarrow> validate_tags v = Inr (True, None)"
  by (simp add: validate_tags_def)

lemma validate_tags_list:
  "\<exists>m. validate_tags (JArr (map JStr xs)) = Inr (list_all (\<lambda>t. length t \<le> 50) xs, m)"
  using check_tags_strings[of xs] by (cases xs) (auto simp: validate_tags_def)

lemma validate_tags_str:
  "\<exists>m. validate_tags (JStr s) =
     Inr (list_all (\<lambda>t. length t \<le> 50) (map py_strip (py_split CHR '','' s)), m)"
proof (cases "s = []")
  case True
  then show ?thesis by (simp add: validate_tags_def py_strip_def)
next
  case False
  have "map (\<lambda>tag. JStr (py_strip tag)) (py_split CHR '','' s)
        = map JStr (map py_strip (py_split CHR '','' s))"
    by simp
  with False show ?thesis
    using check_tags_strings[of "map py_strip (py_split CHR '','' s)"]
    by (simp add: validate_tags_def del: map_map)
qed

lemma validate_tags_other:
  "truthy v \<Longrightarrow> \<not> is_list_or_str v \<Longrightarrow>
   validate_tags v = Inr (False, Some (Text ''Tags must be a list or comma-separated string''))"
  by (cases v) (auto simp: validate_tags_def)

text \<open>
  C5, as the code has it. Every falsy input is accepted (absent, empty string, empty
  list, and also \<open>False\<close>, 0 and the empty object). A list of strings is accepted exactly
  when every element has length at most 50; a string exactly when every part of its
  split on the comma, stripped, has length at most 50. Every truthy input that is
  neither a list nor a string is rejected.
\<close>

theorem validate_tags_rules:
  "(\<not> truthy v \<longrightarrow> validate_tags v = Inr (True, None))
   \<and> (\<exists>m. validate_tags (JArr (map JStr xs)) =
            Inr (list_all (\<lambda>t. length t \<le> 50) xs, m))
   \<and> (\<exists>m. validate_tags (JStr s) =
            Inr (list_all (\<lambda>t. length t \<le> 50) (map py_strip (py_split CHR '','' s)), m))
   \<and> (truthy w \<and> \<not> is_list_or_str w \<longrightarrow>
        validate_tags w =
          Inr (False, Some (Text ''Tags must be a list or comma-separated string'')))"
  using validate_tags_falsy[of v] validate_tags_list[of xs] validate_tags_str[of s]
        validate_tags_other[of w]
  by blast

theorem validate_tags_rules_witness:
  "validate_tags JNull = Inr (True, None)
   \<and> (\<exists>m. validate_tags (JArr [JStr ''aws'', JStr ''vpn'']) = Inr (True, m))
   \<and> (\<exists>m. validate_tags (JStr ''a, b'') = Inr (True, m))
   \<and> validate_tags (JNum 123) =
       Inr (False, Some (Text ''Tags must be a list or comma-separated string''))"
  using validate_tags_rules[of JNull "[''aws'', ''vpn'']" "''a, b''" "JNum 123"]
  by (simp add: py_strip_def isspace_def)

text \<open>
  C5 as stated fails at \<open>False\<close>: it is neither a list nor a string, nor absent or
  empty, and it is accepted.
\<close>

theorem validate_tags_false_counterexample:
  "\<not> is_list_or_str (JBool False) \<and> validate_tags (JBool False) = Inr (True, None)"
  by (simp add: validate_tags_def)

section \<open>Usernames\<close>

text \<open>What \<open>validate_username\<close> accepts: the rule of C7 and, besides, one alphanumeric.\<close>

lemma validate_username_accepts:
  "fst (validate_username u) \<longleftrightarrow>
     (3 \<le> length u \<and> length u \<le> 80
      \<and> list_all (\<lambda>c. isalnum_char c \<or> c = CHR ''-'' \<or> c = CHR ''_'') u
      \<and> list_ex isalnum_char u)"
proof -
  have a: "list_all isalnum_char (py_remove CHR ''-'' (py_remove CHR ''_'' u))
        \<longleftrightarrow> list_all (\<lambda>c. isalnum_char c \<or> c = CHR ''-'' \<or> c = CHR ''_'') u"
    by (induction u) (auto simp: py_remove_def)
  have n: "\<not> isalnum_char CHR ''-''" "\<not> isalnum_char CHR ''_''"
    by (simp_all add: isalnum_char_def)
  have b: "list_all (\<lambda>c. isalnum_char c \<or> c = CHR ''-'' \<or> c = CHR ''_'') u \<Longrightarrow>
        py_remove CHR ''-'' (py_remove CHR ''_'' u) \<noteq> [] \<longleftrightarrow> list_ex isalnum_char u"
    using n by (induction u) (auto simp: py_remove_def)
  show ?thesis using a b by (auto simp: validate_username_def py_isalnum_def)
qed

text \<open>
  C7 fails on the code at \<open>"___"\<close>: three characters, each an underscore, and the
  function rejects it, with the message that states the charset rule the string meets.
\<close>

theorem validate_username_underscores:
  "length ''___'' = 3
   \<and> list_all (\<lambda>c. isalnum_char c \<or> c = CHR ''-'' \<or> c = CHR ''_'') ''___''
   \<and> validate_username ''___'' =
       (False, Some (Text
         ''Username can only contain letters, numbers, hyphens, and underscores''))"
  by (simp add: validate_username_def py_remove_def py_isalnum_def)

section \<open>The tag list of a configuration\<close>

lemma stripped_tags_strings:
  "stripped_tags (map JStr xs) = Inr (filter (\<lambda>t. t \<noteq> []) (map py_strip xs))"
  by (induction xs) auto

lemma get_tags_list_joined:
  assumes "list_all (\<lambda>t. CHR '','' \<notin> set t) ys" "list_all (\<lambda>t. t \<noteq> [] \<and> py_strip t = t) ys"
  shows "get_tags_list (config\<lparr>tags := JStr (py_join '','' ys)\<rparr>) = Inr ys"
proof (cases "ys = []")
  case True
  then show ?thesis by (simp add: get_tags_list_def)
next
  case False
  from assms(2) have ne: "list_all (\<lambda>t. t \<noteq> []) ys" by (simp add: list_all_iff)
  have j: "py_join '','' ys \<noteq> []" using py_join_nonempty[OF False ne] .
  have sp: "py_split CHR '','' (py_join '','' ys) = ys"
    using py_split_join[OF False assms(1)] by simp
  from assms(2) have "map py_strip ys = ys" by (induction ys) auto
  with j sp show ?thesis by (simp add: get_tags_list_def)
qed

text \<open>
  C8, as the code has it. For a list of strings without commas, \<open>set_tags_list\<close> then
  \<open>get_tags_list\<close> returns the list with every element stripped and the blank elements
  dropped: the original list when no element is blank or has white space at an end.
\<close>

theorem tags_round_trip:
  assumes "list_all (\<lambda>t. CHR '','' \<notin> set t) xs"
  shows "\<exists>config'. set_tags_list (map JStr xs) config = Inr config'
           \<and> get_tags_list config' = Inr (filter (\<lambda>t. t \<noteq> []) (map py_strip xs))
           \<and> (list_all (\<lambda>t. t \<noteq> [] \<and> py_strip t = t) xs \<longrightarrow>
                get_tags_list config' = Inr xs)"
proof -
  let ?ys = "filter (\<lambda>t. t \<noteq> []) (map py_strip xs)"
  have set': "set_tags_list (map JStr xs) config = Inr (config\<lparr>tags := JStr (py_join '','' ?ys)\<rparr>)"
    by (simp add: set_tags_list_def stripped_tags_strings)
  have c: "list_all (\<lambda>t. CHR '','' \<notin> set t) ?ys"
    using assms set_py_strip by (fastforce simp: list_all_iff)
  have f: "list_all (\<lambda>t. t \<noteq> [] \<and> py_strip t = t) ?ys"
    by (auto simp: list_all_iff py_strip_idem)
  have g: "get_tags_list (config\<lparr>tags := JStr (py_join '','' ?ys)\<rparr>) = Inr ?ys"
    using get_tags_list_joined[OF c f] .
  have same: "list_all (\<lambda>t. t \<noteq> [] \<and> py_strip t = t) xs \<Longrightarrow> ?ys = xs"
    by (induction xs) auto
  show ?thesis using set' g same by auto
qed

theorem tags_round_trip_witness:
  "list_all (\<lambda>t. CHR '','' \<notin> set t) [''a'', ''b'']
   \<and> (\<exists>config'. set_tags_list [JStr ''a'', JStr ''b''] example_configuration = Inr config'
         \<and> get_tags_list config' = Inr [''a'', ''b''])"
proof -
  have h: "list_all (\<lambda>t. CHR '','' \<notin> set t) [''a'', ''b'']" by simp
  have s: "list_all (\<lambda>t. t \<noteq> [] \<and> py_strip t = t) [''a'', ''b'']"
    by (simp add: py_strip_def isspace_def)
  show ?thesis
    using h s tags_round_trip[OF h, of example_configuration] by auto
qed

text \<open>
  C8 as stated fails at a tag with a leading space: \<open>set_tags_list\<close> strips it, and
  the list read back differs from the list written.
\<close>

theorem tags_round_trip_counterexample:
  "CHR '','' \<notin> set '' a''
   \<and> set_tags_list [JStr '' a''] example_configuration
       = Inr (example_configuration\<lparr>tags := JStr ''a''\<rparr>)
   \<and> get_tags_list (example_configuration\<lparr>tags := JStr ''a''\<rparr>) = Inr [''a'']
   \<and> [''a''] \<noteq> ['' a'']"
  by (simp add: set_tags_list_def get_tags_list_def py_strip_def isspace_def)

section \<open>Existence and ownership checks\<close>

lemma sqlite_int_nat: "sqlite_int (int i) = (i < 2 ^ 63)"
proof -
  have "(int i < 2 ^ 63) = (i < 2 ^ 63)"
    by (metis of_nat_less_iff of_nat_numeral of_nat_power)
  moreover have "- (2 ^ 63) \<le> int i" by (rule order_trans[of _ 0]) simp_all
  ultimately show ?thesis by (simp add: sqlite_int_def)
qed

lemma get_Configuration_missing:
  "i < 2 ^ 63 \<Longrightarrow> i \<notin> set (map c_id (configurations s)) \<Longrightarrow>
   get_Configuration s i = Inr None"
  by (auto simp: get_Configuration_def find_None_iff sqlite_int_nat)

lemma get_Configuration_member:
  "get_Configuration s i = Inr (Some config) \<Longrightarrow>
   config \<in> set (configurations s) \<and> c_id config = i"
  by (auto simp: get_Configuration_def find_Some_iff split: if_splits)

lemma get_Configuration_too_large:
  "\<not> i < 2 ^ 63 \<Longrightarrow> get_Configuration s i = Inl OverflowError"
  by (simp add: get_Configuration_def sqlite_int_nat)

lemma example_lookup:
  "get_Configuration example_store 1 = Inr (Some example_configuration)"
  "get_Configuration example_store 2 = Inr (Some example_template)"
  "7 \<notin> set (map c_id (configurations example_store))"
  by (simp_all add: get_Configuration_def example_store_def example_configuration_def
      example_template_def sqlite_int_def)

text \<open>
  C1, as the code has it. Let the id be one the engine can hold, below \<open>2^63\<close>. When no
  configuration has the id, get, delete, list-versions and get-version answer 404, and
  so does update when its body is truthy; when the lookup finds the configuration and
  its owner is not the caller, they answer 403; in both cases the store is left as it
  was. The lookup comes before the ownership test, so the answer for a missing id does
  not depend on the caller. An update whose body is falsy, such as the empty object, is
  answered 400 before the lookup.
\<close>

theorem existence_before_ownership:
  "(i < 2 ^ 63 \<and> i \<notin> set (map c_id (configurations s)) \<longrightarrow>
      get_configuration caller i s = (Failure 404 ''Configuration not found'' [], s)
      \<and> (truthy data \<longrightarrow>
           update_configuration now info caller data i s
             = (Failure 404 ''Configuration not found'' [], s))
      \<and> delete_configuration now info caller i s
           = (Failure 404 ''Configuration not found'' [], s)
      \<and> get_configuration_versions caller i s
           = (Failure 404 ''Configuration not found'' [], s)
      \<and> get_configuration_version caller i n s
           = (Failure 404 ''Configuration not found'' [], s))
   \<and> (get_Configuration s j = Inr (Some config) \<and> user_id config \<noteq> caller \<longrightarrow>
      get_configuration caller j s
        = (Failure 403 ''You do not have permission to access this configuration'' [], s)
      \<and> (truthy data \<longrightarrow>
           update_configuration now info caller data j s
             = (Failure 403 ''You do not have permission to modify this configuration'' [], s))
      \<and> delete_configuration now info caller j s
           = (Failure 403 ''You do not have permission to delete this configuration'' [], s)
      \<and> get_configuration_versions caller j s
           = (Failure 403 ''You do not have permission to access this configuration'' [], s)
      \<and> get_configuration_version caller j n s
           = (Failure 403 ''You do not have permission to access this configuration'' [], s))
   \<and> (\<not> truthy data \<longrightarrow>
        update_configuration now info caller data i s = (Failure 400 ''No data provided'' [], s))"
  using get_Configuration_missing[of i s]
  by (simp add: get_configuration_def update_configuration_def delete_configuration_def
      get_configuration_versions_def get_configuration_version_def
      not_found_response_def forbidden_response_def)

theorem existence_before_ownership_witness:
  "get_configuration 2 7 example_store = (Failure 404 ''Configuration not found'' [], example_store)
   \<and> update_configuration 9 example_info 2 (JObj [(''name'', JStr ''x'')]) 7 example_store
       = (Failure 404 ''Configuration not found'' [], example_store)
   \<and> get_configuration 2 1 example_store
       = (Failure 403 ''You do not have permission to access this configuration'' [],
          example_store)
   \<and> update_configuration 9 example_info 2 (JObj [(''name'', JStr ''x'')]) 1 example_store
       = (Failure 403 ''You do not have permission to modify this configuration'' [],
          example_store)
   \<and> delete_configuration 9 example_info 2 1 example_store
       = (Failure 403 ''You do not have permission to delete this configuration'' [],
          example_store)"
  using existence_before_ownership[of 7 example_store 2 "JObj [(''name'', JStr ''x'')]" 9
          example_info 1 1 example_configuration]
        example_lookup
  by (simp add: example_configuration_def)

text \<open>
  C1 as stated fails for update: with an empty body it answers 400 for an id that no
  configuration has.
\<close>

theorem update_missing_empty_body_counterexample:
  "7 \<notin> set (map c_id (configurations empty_store))
   \<and> update_configuration 9 example_info 2 (JObj []) 7 empty_store
       = (Failure 400 ''No data provided'' [], empty_store)"
  by (simp add: update_configuration_def empty_store_def)

text \<open>An id that the engine cannot hold makes the lookup itself fail.\<close>

lemma get_configuration_too_large:
  "\<not> i < 2 ^ 63 \<Longrightarrow> get_configuration caller i s = (Failure 500 ''Unexpected Error'' [], s)"
  by (simp add: get_configuration_def get_Configuration_too_large)

section \<open>Templates\<close>

text \<open>
  C10. A configuration that is a template and whose owner is not the caller is
  answered 403 by the direct get, while the template listing of the same caller
  contains it.
\<close>

theorem template_get_forbidden:
  assumes "get_Configuration s i = Inr (Some config)" "is_template config"
    "user_id config \<noteq> caller"
  shows "get_configuration caller i s
           = (Failure 403 ''You do not have permission to access this configuration'' [], s)
         \<and> (\<exists>ts. list_templates caller s = (Success 200 None (ConfigList ts), s)
                  \<and> config \<in> set ts)"
  using assms get_Configuration_member[OF assms(1)]
  by (simp add: get_configuration_def list_templates_def forbidden_response_def)

theorem template_get_forbidden_witness:
  "get_Configuration example_store 2 = Inr (Some example_template)
   \<and> is_template example_template \<and> user_id example_template \<noteq> 1
   \<and> get_configuration 1 2 example_store
       = (Failure 403 ''You do not have permission to access this configuration'' [],
          example_store)"
proof -
  have a: "get_Configuration example_store 2 = Inr (Some example_template)"
    by (rule example_lookup)
  have b: "is_template example_template" by (simp add: example_template_def)
  have c: "user_id example_template \<noteq> 1" by (simp add: example_template_def)
  show ?thesis using a b c template_get_forbidden[OF a b c] by simp
qed

text \<open>
  C4. For every caller, the template listing returns the configurations of the store
  whose \<open>is_template\<close> flag is set, each once and whoever owns it, ordered by
  \<open>updated_at\<close> with the most recent first.
\<close>

theorem list_templates_all_owners:
  "\<exists>ts. list_templates caller s = (Success 200 None (ConfigList ts), s)
        \<and> set ts = {c \<in> set (configurations s). is_template c}
        \<and> length ts = length (filter is_template (configurations s))
        \<and> sorted_wrt (\<lambda>a b. updated_at a \<ge> updated_at b) ts"
proof -
  let ?ts = "rev (sort_key updated_at (filter is_template (configurations s)))"
  have "sorted (map updated_at (sort_key updated_at (filter is_template (configurations s))))"
    by (rule sorted_sort_key)
  then have "sorted_wrt (\<lambda>a b. updated_at a \<le> updated_at b)
               (sort_key updated_at (filter is_template (configurations s)))"
    by (simp add: sorted_map)
  then have "sorted_wrt (\<lambda>a b. updated_at a \<ge> updated_at b) ?ts"
    by (simp add: sorted_wrt_rev)
  moreover have "set ?ts = {c \<in> set (configurations s). is_template c}" by auto
  moreover have "length ?ts = length (filter is_template (configurations s))" by simp
  ultimately show ?thesis by (simp add: list_templates_def)
qed

theorem list_templates_all_owners_witness:
  "\<exists>ts. list_templates 1 example_store = (Success 200 None (ConfigList ts), example_store)
        \<and> set ts = {example_template}"
proof -
  have "{c \<in> set (configurations example_store). is_template c} = {example_template}"
    by (auto simp: example_store_def example_template_def example_configuration_def)
  then show ?thesis using list_templates_all_owners[of 1 example_store] by auto
qed

section \<open>Partial updates\<close>

lemma update_name_result:
  assumes "update_name data c = Inr c'"
  shows "\<exists>n. c' = c\<lparr>name := n\<rparr> \<and> (py_in ''name'' data = Inr False \<longrightarrow> n = name c)"
  using assms
  by (auto simp: update_name_def then_do_def lift_def split: sum.splits if_splits)

lemma update_description_result:
  assumes "update_description data c = Inr c'"
  shows "\<exists>d. c' = c\<lparr>description := d\<rparr>
             \<and> (py_in ''description'' data = Inr False \<longrightarrow> d = description c)"
  using assms
  by (auto simp: update_description_def then_do_def lift_def split: sum.splits if_splits)

lemma set_tags_list_result:
  "set_tags_list ts c = Inr c' \<Longrightarrow> \<exists>t. c' = c\<lparr>tags := t\<rparr>"
  by (auto simp: set_tags_list_def split: sum.splits)

lemma update_tags_result:
  assumes "update_tags data c = Inr c'"
  shows "\<exists>t. c' = c\<lparr>tags := t\<rparr> \<and> (py_in ''tags'' data = Inr False \<longrightarrow> t = tags c)"
proof (cases "py_in ''tags'' data = Inr True")
  case False
  with assms have "c' = c"
    by (auto simp: update_tags_def then_do_def lift_def split: sum.splits if_splits)
  then have "c' = c\<lparr>tags := tags c\<rparr>" by simp
  then show ?thesis by blast
next
  case True
  with assms obtain tags' where
    "(case tags' of JArr ts \<Rightarrow> lift (set_tags_list ts c) | _ \<Rightarrow> Inr (c\<lparr>tags := tags'\<rparr>)) = Inr c'"
    by (auto simp: update_tags_def then_do_def lift_def split: sum.splits if_splits)
  then have "\<exists>t. c' = c\<lparr>tags := t\<rparr>"
    by (cases tags') (auto simp: lift_def split: sum.splits dest: set_tags_list_result)
  with True show ?thesis by auto
qed

lemma update_is_template_result:
  assumes "update_is_template data c = Inr c'"
  shows "\<exists>b. c' = c\<lparr>is_template := b\<rparr>
             \<and> (py_in ''is_template'' data = Inr False \<longrightarrow> b = is_template c)"
  using assms
  by (auto simp: update_is_template_def then_do_def lift_def split: sum.splits if_splits)

lemma update_data_result:
  assumes "update_data data c = Inr (c', changed)"
  shows "py_in ''data'' data = Inr changed
         \<and> (\<exists>j. c' = c\<lparr>data_json := j\<rparr>
                \<and> (if changed then py_getitem data ''data'' = Inr j else j = data_json c))"
  using assms
  by (auto simp: update_data_def then_do_def lift_def set_data_def
      split: sum.splits if_splits)

text \<open>
  What the five blocks together leave: only the five columns can differ, and a column
  whose key is not in the body keeps its value.
\<close>

lemma update_fields_result:
  assumes "update_fields data c = Inr (c', changed)"
  shows "\<exists>n d t b j.
      c' = c\<lparr>name := n, description := d, tags := t, is_template := b, data_json := j\<rparr>
    \<and> py_in ''data'' data = Inr changed
    \<and> (if changed then py_getitem data ''data'' = Inr j else j = data_json c)
    \<and> (py_in ''name'' data = Inr False \<longrightarrow> n = name c)
    \<and> (py_in ''description'' data = Inr False \<longrightarrow> d = description c)
    \<and> (py_in ''tags'' data = Inr False \<longrightarrow> t = tags c)
    \<and> (py_in ''is_template'' data = Inr False \<longrightarrow> b = is_template c)"
proof -
  from assms obtain c1 c2 c3 c4 where
    s1: "update_name data c = Inr c1" and
    s2: "update_description data c1 = Inr c2" and
    s3: "update_tags data c2 = Inr c3" and
    s4: "update_is_template data c3 = Inr c4" and
    s5: "update_data data c4 = Inr (c', changed)"
    by (auto simp: update_fields_def then_do_def split: sum.splits)
  from update_name_result[OF s1] obtain n where
    n: "c1 = c\<lparr>name := n\<rparr>" "py_in ''name'' data = Inr False \<longrightarrow> n = name c" by blast
  from update_description_result[OF s2] obtain d where
    d: "c2 = c1\<lparr>description := d\<rparr>"
       "py_in ''description'' data = Inr False \<longrightarrow> d = description c1" by blast
  from update_tags_result[OF s3] obtain t where
    t: "c3 = c2\<lparr>tags := t\<rparr>" "py_in ''tags'' data = Inr False \<longrightarrow> t = tags c2" by blast
  from update_is_template_result[OF s4] obtain b where
    b: "c4 = c3\<lparr>is_template := b\<rparr>"
       "py_in ''is_template'' data = Inr False \<longrightarrow> b = is_template c3" by blast
  from update_data_result[OF s5] obtain j where
    j: "py_in ''data'' data = Inr changed" "c' = c4\<lparr>data_json := j\<rparr>"
       "if changed then py_getitem data ''data'' = Inr j else j = data_json c4" by blast
  have shape: "c' = c\<lparr>name := n, description := d, tags := t, is_template := b, data_json := j\<rparr>"
    by (simp add: n(1) d(1) t(1) b(1) j(2))
  have keep: "py_in ''description'' data = Inr False \<longrightarrow> d = description c"
       "py_in ''tags'' data = Inr False \<longrightarrow> t = tags c"
       "py_in ''is_template'' data = Inr False \<longrightarrow> b = is_template c"
    using d(2) t(2) b(2) by (simp_all add: n(1) d(1) t(1))
  have dj: "if changed then py_getitem data ''data'' = Inr j else j = data_json c"
    using j(3) by (simp add: n(1) d(1) t(1) b(1))
  show ?thesis using shape j(1) dj n(2) keep by blast
qed

lemma find_replaced:
  "find (\<lambda>c. c_id c = i) xs = Some old \<Longrightarrow> c_id new = i \<Longrightarrow>
   find (\<lambda>c. c_id c = i) (map (\<lambda>c. if c_id c = i then new else c) xs) = Some new"
  by (induction xs) (auto split: if_splits)

lemma get_Configuration_put:
  assumes "get_Configuration s i = Inr (Some old)" "c_id row = i"
  shows "get_Configuration (put_configuration row s) i = Inr (Some row)"
proof -
  from assms(1) have f: "find (\<lambda>c. c_id c = i) (configurations s) = Some old"
    and r: "sqlite_int (int i)"
    by (auto simp: get_Configuration_def split: if_splits)
  show ?thesis
    using find_replaced[OF f assms(2)] r assms(2)
    by (simp add: get_Configuration_def put_configuration_def)
qed

lemma get_Configuration_tables:
  "configurations s' = configurations s \<Longrightarrow> get_Configuration s' i = get_Configuration s i"
  by (simp add: get_Configuration_def)

lemma put_configuration_tables [simp]:
  "configuration_versions (put_configuration row s) = configuration_versions s"
  "audit_log (put_configuration row s) = audit_log s"
  by (simp_all add: put_configuration_def)

lemma next_version_put [simp]:
  "get_next_version_number (put_configuration row s) i = get_next_version_number s i"
  by (simp add: get_next_version_number_def versions_of_def)

text \<open>The row that is written differs from the attributes only in what the flush sets.\<close>

lemma flush_configuration_result:
  assumes "flush_configuration now old new = Inr row"
  shows "c_id row = c_id new \<and> user_id row = user_id new \<and> name row = name new
    \<and> description row = description new \<and> is_template row = is_template new
    \<and> data_json row = data_json new
    \<and> (tags new = tags old \<longrightarrow> tags row = tags old)"
  using assms
  by (auto simp: flush_configuration_def split: if_splits sum.splits)

lemma add_version_result:
  assumes "add_version v s = Inr s'"
  shows "\<exists>k. s' = s\<lparr>configuration_versions := configuration_versions s @ [v\<lparr>v_id := k\<rparr>]\<rparr>"
    and "(config_id v, version v)
           \<notin> set (map (\<lambda>w. (config_id w, version w)) (configuration_versions s))"
  using assms by (auto simp: add_version_def split: if_splits)

lemma update_version_result:
  assumes "update_version now caller data i changed s = Inr s'"
  shows "configurations s' = configurations s \<and> audit_log s' = audit_log s
    \<and> (if changed then
          (\<exists>v given. configuration_versions s' = configuration_versions s @ [v]
               \<and> config_id v = i \<and> version v = get_next_version_number s i
               \<and> py_getitem data ''data'' = Inr (v_data_json v)
               \<and> py_get data ''change_description'' (JStr ''Configuration updated'')
                   = Inr given
               \<and> text_column given = Inr (change_description v)
               \<and> created_by v = caller)
        else configuration_versions s' = configuration_versions s)"
proof (cases changed)
  case False
  with assms show ?thesis by (simp add: update_version_def)
next
  case True
  with assms obtain given descr v where
    g: "py_get data ''change_description'' (JStr ''Configuration updated'') = Inr given"
       "py_getitem data ''data'' = Inr v" "text_column given = Inr descr" and
    a: "add_version \<lparr>v_id = 0, config_id = i, version = get_next_version_number s i,
           v_data_json = v, change_description = descr, v_created_at = now,
           created_by = caller\<rparr> s = Inr s'"
    by (auto simp: update_version_def then_do_def lift_def split: sum.splits)
  from add_version_result(1)[OF a] obtain k where
    "s' = s\<lparr>configuration_versions := configuration_versions s @
           [\<lparr>v_id = 0, config_id = i, version = get_next_version_number s i,
             v_data_json = v, change_description = descr, v_created_at = now,
             created_by = caller\<rparr>\<lparr>v_id := k\<rparr>]\<rparr>" by blast
  with True g show ?thesis by simp
qed

lemma AuditLog_log_tables [simp]:
  "configurations (AuditLog_log now uid act rtype rid dets info s) = configurations s"
  "configuration_versions (AuditLog_log now uid act rtype rid dets info s)
     = configuration_versions s"
  by (simp_all add: AuditLog_log_def)

text \<open>An update that stops early answers with a failure.\<close>

lemma answer_raised: "\<exists>code msg errs. answer (Raised e) = Failure code msg errs"
  by (cases e) auto

lemma lift_abort: "lift m = Inl a \<Longrightarrow> \<exists>code msg errs. answer a = Failure code msg errs"
  using answer_raised by (auto simp: lift_def split: sum.splits)

lemma update_name_abort:
  "update_name data c = Inl a \<Longrightarrow> \<exists>code msg errs. answer a = Failure code msg errs"
  using answer_raised
  by (auto simp: update_name_def then_do_def lift_def split: sum.splits if_splits)

lemma update_description_abort:
  "update_description data c = Inl a \<Longrightarrow> \<exists>code msg errs. answer a = Failure code msg errs"
  using answer_raised
  by (auto simp: update_description_def then_do_def lift_def split: sum.splits if_splits)

lemma update_tags_abort:
  assumes "update_tags data c = Inl a"
  shows "\<exists>code msg errs. answer a = Failure code msg errs"
proof (cases a)
  case (Raised e)
  then show ?thesis using answer_raised by simp
next
  case (Returned r)
  with assms have "\<exists>errs. r = validation_error_response errs"
    by (auto simp: update_tags_def then_do_def lift_def
        split: sum.splits if_splits json.splits)
  with Returned show ?thesis by (auto simp: validation_error_response_def)
qed

lemma update_is_template_abort:
  "update_is_template data c = Inl a \<Longrightarrow> \<exists>code msg errs. answer a = Failure code msg errs"
  using answer_raised
  by (auto simp: update_is_template_def then_do_def lift_def split: sum.splits if_splits)

lemma update_data_abort:
  "update_data data c = Inl a \<Longrightarrow> \<exists>code msg errs. answer a = Failure code msg errs"
  using answer_raised
  by (auto simp: update_data_def then_do_def lift_def split: sum.splits if_splits)

lemma update_fields_abort:
  assumes "update_fields data c = Inl a"
  shows "\<exists>code msg errs. answer a = Failure code msg errs"
proof -
  note ab = update_name_abort update_description_abort update_tags_abort
    update_is_template_abort update_data_abort
  from assms show ?thesis
    unfolding update_fields_def then_do_def
    by (auto split: sum.splits intro: ab)
qed

lemma update_version_abort:
  assumes "update_version now caller data i changed s = Inl a"
  shows "\<exists>code msg errs. answer a = Failure code msg errs"
proof -
  from assms obtain e where "a = Raised e"
    by (auto simp: update_version_def then_do_def lift_def split: sum.splits if_splits)
  then show ?thesis using answer_raised by simp
qed

lemma update_success:
  assumes "get_Configuration s i = Inr (Some config)" "user_id config = caller"
    and "update_configuration now info caller data i s = (Success code msg body, s')"
  shows "\<exists>config' changed row s1.
      update_fields data config = Inr (config', changed)
    \<and> flush_configuration now config config' = Inr row
    \<and> update_version now caller data i changed (put_configuration row s) = Inr s1
    \<and> s' = AuditLog_log now caller ''update'' ''configuration'' (Some i)
              (JObj [(''name'', JStr (name row)), (''data_changed'', JBool changed)]) info s1
    \<and> code = 200 \<and> body = ConfigData row"
proof -
  have t: "truthy data"
    using assms(3) by (auto simp: update_configuration_def split: if_splits)
  show ?thesis
  proof (cases "update_fields data config")
    case (Inl a)
    then obtain c m es where "answer a = Failure c m es" using update_fields_abort by blast
    with Inl assms t show ?thesis
      by (simp add: update_configuration_def then_do_def)
  next
    case (Inr p)
    obtain config' changed where p: "p = (config', changed)" by (cases p)
    show ?thesis
    proof (cases "flush_configuration now config config'")
      case (Inl e)
      obtain c m es where "answer (Raised e) = Failure c m es" using answer_raised by blast
      with Inl \<open>update_fields data config = Inr p\<close> p assms t show ?thesis
        by (simp add: update_configuration_def then_do_def lift_def)
    next
      case (Inr row)
      note fl = this
      show ?thesis
      proof (cases "update_version now caller data i changed (put_configuration row s)")
        case (Inl a)
        then obtain c m es where "answer a = Failure c m es"
          using update_version_abort by blast
        with Inl fl \<open>update_fields data config = Inr p\<close> p assms t show ?thesis
          by (simp add: update_configuration_def then_do_def lift_def)
      next
        case (Inr s1)
        with fl \<open>update_fields data config = Inr p\<close> p assms t show ?thesis
          by (simp add: update_configuration_def then_do_def lift_def)
      qed
    qed
  qed
qed

text \<open>
  C3, as the code has it. Let the owner of an existing record send a patch that the
  update applies: the answer is a success. Then the answer is 200, and a version row is
  appended exactly when \<open>'data'\<close> is in the patch: in that case the row carries the
  next version number, the patch's data, the change description of the patch or the
  default as the text column stores it, and the record's data is the patch's data;
  otherwise the version table and the record's data are as before. Each of name,
  description, tags and is_template whose key is not in the patch keeps its value. One
  audit row is appended, and its details state whether the data changed.
\<close>

theorem update_patch_effects:
  assumes "get_Configuration s i = Inr (Some config)" "user_id config = caller"
    and "update_configuration now info caller data i s = (Success code msg body, s')"
  shows "\<exists>changed row.
      code = 200
    \<and> py_in ''data'' data = Inr changed
    \<and> get_Configuration s' i = Inr (Some row)
    \<and> (if changed then
          (\<exists>v given. configuration_versions s' = configuration_versions s @ [v]
               \<and> config_id v = i \<and> version v = get_next_version_number s i
               \<and> py_getitem data ''data'' = Inr (v_data_json v)
               \<and> py_get data ''change_description'' (JStr ''Configuration updated'')
                   = Inr given
               \<and> text_column given = Inr (change_description v)
               \<and> created_by v = caller)
          \<and> py_getitem data ''data'' = Inr (data_json row)
        else configuration_versions s' = configuration_versions s
             \<and> data_json row = data_json config)
    \<and> (py_in ''name'' data = Inr False \<longrightarrow> name row = name config)
    \<and> (py_in ''description'' data = Inr False \<longrightarrow> description row = description config)
    \<and> (py_in ''tags'' data = Inr False \<longrightarrow> tags row = tags config)
    \<and> (py_in ''is_template'' data = Inr False \<longrightarrow> is_template row = is_template config)
    \<and> (\<exists>e. audit_log s' = audit_log s @ [e]
            \<and> action e = ''update'' \<and> a_user_id e = caller \<and> resource_id e = Some i
            \<and> details e = Some (JObj [(''name'', JStr (name row)),
                                       (''data_changed'', JBool changed)]))"
proof -
  from update_success[OF assms] obtain config' changed row s1 where
    f: "update_fields data config = Inr (config', changed)" and
    fl: "flush_configuration now config config' = Inr row" and
    v: "update_version now caller data i changed (put_configuration row s) = Inr s1" and
    l: "s' = AuditLog_log now caller ''update'' ''configuration'' (Some i)
              (JObj [(''name'', JStr (name row)), (''data_changed'', JBool changed)]) info s1" and
    c: "code = 200"
    by blast
  from update_fields_result[OF f] obtain n d t b j where
    shape: "config' = config\<lparr>name := n, description := d, tags := t, is_template := b,
                               data_json := j\<rparr>" and
    ch: "py_in ''data'' data = Inr changed" and
    dj: "if changed then py_getitem data ''data'' = Inr j else j = data_json config" and
    keep: "py_in ''name'' data = Inr False \<longrightarrow> n = name config"
          "py_in ''description'' data = Inr False \<longrightarrow> d = description config"
          "py_in ''tags'' data = Inr False \<longrightarrow> t = tags config"
          "py_in ''is_template'' data = Inr False \<longrightarrow> b = is_template config"
    by blast
  note fr = flush_configuration_result[OF fl]
  have cid: "c_id row = i"
    using get_Configuration_member[OF assms(1)] fr by (simp add: shape)
  note uv = update_version_result[OF v]
  have "get_Configuration s' i = get_Configuration s1 i"
    by (rule get_Configuration_tables) (simp add: l)
  also have "\<dots> = get_Configuration (put_configuration row s) i"
    by (rule get_Configuration_tables) (simp add: uv)
  finally have row: "get_Configuration s' i = Inr (Some row)"
    using get_Configuration_put[OF assms(1) cid] by simp
  have vers: "configuration_versions s' = configuration_versions s1" by (simp add: l)
  have dr: "data_json row = j" using fr by (simp add: shape)
  have part: "if changed then
          (\<exists>v given. configuration_versions s' = configuration_versions s @ [v]
               \<and> config_id v = i \<and> version v = get_next_version_number s i
               \<and> py_getitem data ''data'' = Inr (v_data_json v)
               \<and> py_get data ''change_description'' (JStr ''Configuration updated'')
                   = Inr given
               \<and> text_column given = Inr (change_description v)
               \<and> created_by v = caller)
          \<and> py_getitem data ''data'' = Inr (data_json row)
        else configuration_versions s' = configuration_versions s
             \<and> data_json row = data_json config"
    using uv dj by (cases changed) (simp_all add: vers dr)
  have frame: "py_in ''name'' data = Inr False \<longrightarrow> name row = name config"
    "py_in ''description'' data = Inr False \<longrightarrow> description row = description config"
    "py_in ''tags'' data = Inr False \<longrightarrow> tags row = tags config"
    "py_in ''is_template'' data = Inr False \<longrightarrow> is_template row = is_template config"
    using keep fr by (simp_all add: shape)
  have "audit_log s1 = audit_log s" using uv by simp
  then have audit: "\<exists>e. audit_log s' = audit_log s @ [e]
            \<and> action e = ''update'' \<and> a_user_id e = caller \<and> resource_id e = Some i
            \<and> details e = Some (JObj [(''name'', JStr (name row)),
                                       (''data_changed'', JBool changed)])"
    by (simp add: l AuditLog_log_def)
  show ?thesis
    using c ch row part frame audit by blast
qed

theorem update_patch_effects_witness:
  "get_Configuration example_store 1 = Inr (Some example_configuration)
   \<and> user_id example_configuration = 1
   \<and> fst (update_configuration 9 example_info 1 example_patch 1 example_store)
       = Success 200 (Some ''Configuration updated successfully'')
           (ConfigData (example_configuration\<lparr>data_json := JObj [(''k'', JStr ''v2'')],
                                               updated_at := 9\<rparr>))
   \<and> (\<exists>v. configuration_versions
              (snd (update_configuration 9 example_info 1 example_patch 1 example_store))
            = configuration_versions example_store @ [v]
          \<and> config_id v = 1 \<and> version v = 2
          \<and> v_data_json v = JObj [(''k'', JStr ''v2'')]
          \<and> change_description v = JStr ''Configuration updated'')"
proof -
  let ?u = "update_configuration 9 example_info 1 example_patch 1 example_store"
  let ?r = "Success 200 (Some ''Configuration updated successfully'')
              (ConfigData (example_configuration\<lparr>data_json := JObj [(''k'', JStr ''v2'')],
                                                  updated_at := 9\<rparr>))"
  have a: "get_Configuration example_store 1 = Inr (Some example_configuration)"
    by (rule example_lookup(1))
  have b: "user_id example_configuration = 1" by (simp add: example_configuration_def)
  have f: "fst ?u = ?r" by code_simp
  then have c: "?u = (?r, snd ?u)" by (metis prod.collapse)
  have n: "get_next_version_number example_store 1 = 2" by code_simp
  have p: "py_in ''data'' example_patch = Inr True"
    "py_getitem example_patch ''data'' = Inr (JObj [(''k'', JStr ''v2'')])"
    "py_get example_patch ''change_description'' (JStr ''Configuration updated'')
       = Inr (JStr ''Configuration updated'')"
    by (simp_all add: example_patch_def)
  from update_patch_effects[OF a b c] p n show ?thesis using a b f by auto
qed

text \<open>
  C3 as stated fails for a patch that carries \<open>'data'\<close> and tags that do not validate:
  the owner's update is answered 422, and no version row and no audit row is written.
\<close>

theorem update_invalid_tags_counterexample:
  "get_Configuration example_store 1 = Inr (Some example_configuration)
   \<and> user_id example_configuration = 1
   \<and> py_in ''data'' (JObj [(''data'', JObj [(''k'', JStr ''v2'')]), (''tags'', JNum 123)])
       = Inr True
   \<and> update_configuration 9 example_info 1
        (JObj [(''data'', JObj [(''k'', JStr ''v2'')]), (''tags'', JNum 123)]) 1 example_store
       = (Failure 422 ''Validation failed''
            [(''tags'', Some (Text ''Tags must be a list or comma-separated string''))],
          example_store)"
proof -
  have a: "get_Configuration example_store 1 = Inr (Some example_configuration)"
    by (rule example_lookup(1))
  have b: "user_id example_configuration = 1" by (simp add: example_configuration_def)
  have v: "validate_tags (JNum 123)
      = Inr (False, Some (Text ''Tags must be a list or comma-separated string''))"
    by (simp add: validate_tags_def)
  have u: "update_fields (JObj [(''data'', JObj [(''k'', JStr ''v2'')]), (''tags'', JNum 123)])
             example_configuration
      = Inl (Returned (validation_error_response
               [(''tags'', Some (Text ''Tags must be a list or comma-separated string''))]))"
    by (simp add: update_fields_def update_name_def update_description_def update_tags_def
        then_do_def lift_def v)
  show ?thesis
    using a b u
    by (simp add: update_configuration_def then_do_def validation_error_response_def)
qed

text \<open>A patch that is not applied leaves the store as it was.\<close>

lemma update_failure_keeps_store:
  assumes "update_configuration now info caller data i s = (Failure code msg errs, s')"
  shows "s' = s"
  using assms
  by (auto simp: update_configuration_def split: if_splits option.splits sum.splits prod.splits)

section \<open>Version numbering\<close>

lemma fold_max_bounds:
  "a \<le> fold max ids (a::nat) \<and> list_all (\<lambda>x. x \<le> fold max ids a) ids"
proof (induction ids arbitrary: a)
  case Nil
  then show ?case by simp
next
  case (Cons x xs)
  have "max x a \<le> fold max xs (max x a)" using Cons by blast
  moreover have "list_all (\<lambda>y. y \<le> fold max xs (max x a)) xs" using Cons by blast
  ultimately show ?case by auto
qed

lemma next_id_fresh: "next_id ids \<notin> set ids"
proof
  assume "next_id ids \<in> set ids"
  then have "next_id ids \<le> fold max ids 0"
    using fold_max_bounds[of 0 ids] by (simp add: list_all_iff)
  then show False by (simp add: next_id_def)
qed

lemma sql_max_Max: "xs \<noteq> [] \<Longrightarrow> sql_max xs = Some (Max (set xs))"
proof (induction xs)
  case Nil
  then show ?case by simp
next
  case (Cons x xs)
  show ?case
  proof (cases "xs = []")
    case True
    then show ?thesis by simp
  next
    case False
    with Cons have "sql_max xs = Some (Max (set xs))" by simp
    with False show ?thesis by simp
  qed
qed

lemma next_version_none: "versions_of s i = [] \<Longrightarrow> get_next_version_number s i = 1"
  by (simp add: get_next_version_number_def)

lemma next_version_max:
  "versions_of s i \<noteq> [] \<Longrightarrow>
   get_next_version_number s i = Max (set (version_numbers s i)) + 1"
  using sql_max_Max[of "map version (versions_of s i)"]
  by (simp add: get_next_version_number_def version_numbers_def)

lemma next_version_contiguous:
  assumes "contiguous_versions s i"
  shows "get_next_version_number s i = Suc (length (versions_of s i))"
proof -
  from assms have ne: "versions_of s i \<noteq> []"
    and eq: "set (version_numbers s i) = {1..length (versions_of s i)}"
    by (simp_all add: contiguous_versions_def)
  from ne have "1 \<le> length (versions_of s i)" by (cases "versions_of s i") auto
  then have "Max {1..length (versions_of s i)} = length (versions_of s i)"
    by (intro Max_eqI) auto
  with next_version_max[OF ne] eq show ?thesis by simp
qed

section \<open>The well-versioned stores are closed under the handlers\<close>

lemma well_versioned_tables:
  "configurations s' = configurations s \<Longrightarrow>
   configuration_versions s' = configuration_versions s \<Longrightarrow>
   well_versioned s' = well_versioned s"
  by (simp add: well_versioned_def contiguous_versions_def versions_of_def version_numbers_def)

lemma well_versioned_empty: "well_versioned empty_store"
  by (simp add: well_versioned_def empty_store_def)

text \<open>A new configuration with a fresh key, together with its version 1.\<close>

lemma insert_with_first_version:
  assumes wv: "well_versioned s"
    and fresh: "c_id config = next_id (map c_id (configurations s))"
    and v: "config_id v = c_id config" "version v = 1"
    and add: "add_version v (s\<lparr>configurations := configurations s @ [config]\<rparr>) = Inr s'"
  shows "well_versioned s'"
    and "\<exists>k. versions_of s' (c_id config) = [v\<lparr>v_id := k\<rparr>]"
    and "configurations s' = configurations s @ [config]"
proof -
  let ?cs = "configurations s" and ?vs = "configuration_versions s"
  from add_version_result[OF add] obtain k where
    s': "s' = s\<lparr>configurations := ?cs @ [config],
                 configuration_versions := ?vs @ [v\<lparr>v_id := k\<rparr>]\<rparr>"
    and new: "(config_id v, version v) \<notin> set (map (\<lambda>w. (config_id w, version w)) ?vs)"
    by auto
  have nin: "c_id config \<notin> set (map c_id ?cs)" using fresh next_id_fresh by metis
  from wv have d1: "distinct (map c_id ?cs)"
    and d2: "distinct (map (\<lambda>w. (config_id w, version w)) ?vs)"
    and fk: "list_all (\<lambda>w. config_id w \<in> set (map c_id ?cs)) ?vs"
    and ct: "list_all (\<lambda>c. contiguous_versions s (c_id c)) ?cs"
    by (simp_all add: well_versioned_def)
  have none: "filter (\<lambda>w. config_id w = c_id config) ?vs = []"
  proof -
    have "config_id w \<noteq> c_id config" if "w \<in> set ?vs" for w
    proof -
      from fk that have "config_id w \<in> set (map c_id ?cs)" by (simp add: list_all_iff)
      with nin show ?thesis by metis
    qed
    then show ?thesis by (simp add: filter_empty_conv)
  qed
  have own': "versions_of s' (c_id config) = [v\<lparr>v_id := k\<rparr>]"
    using none v by (simp add: s' versions_of_def)
  then show own: "\<exists>k. versions_of s' (c_id config) = [v\<lparr>v_id := k\<rparr>]" by blast
  show "configurations s' = configurations s @ [config]" by (simp add: s')
  have others: "\<And>c. c \<in> set ?cs \<Longrightarrow> versions_of s' (c_id c) = versions_of s (c_id c)"
    using nin v by (auto simp: s' versions_of_def)
  have c1: "distinct (map c_id (configurations s'))" using d1 nin by (simp add: s')
  have c2: "distinct (map (\<lambda>w. (config_id w, version w)) (configuration_versions s'))"
    using d2 new by (simp add: s')
  have c3: "list_all (\<lambda>w. config_id w \<in> set (map c_id (configurations s')))
              (configuration_versions s')"
    using fk v by (auto simp: s' list_all_iff)
  have c4a: "list_all (\<lambda>c. contiguous_versions s' (c_id c)) ?cs"
    using ct others by (simp add: list_all_iff contiguous_versions_def version_numbers_def)
  have c4b: "contiguous_versions s' (c_id config)"
    using own' v by (simp add: contiguous_versions_def version_numbers_def)
  show "well_versioned s'"
    unfolding well_versioned_def using c1 c2 c3 c4a c4b by (simp add: s')
qed

lemma well_versioned_keys:
  assumes "map c_id (configurations s') = map c_id (configurations s)"
    and "configuration_versions s' = configuration_versions s"
  shows "well_versioned s' = well_versioned s"
proof -
  have v: "\<And>i. versions_of s' i = versions_of s i"
    using assms(2) by (simp add: versions_of_def)
  then have c: "\<And>i. contiguous_versions s' i = contiguous_versions s i"
    by (simp add: contiguous_versions_def version_numbers_def)
  have "list_all (\<lambda>c. contiguous_versions s (c_id c)) (configurations s')
        = list_all (contiguous_versions s) (map c_id (configurations s'))"
    by (simp add: list.pred_map comp_def)
  also have "\<dots> = list_all (\<lambda>c. contiguous_versions s (c_id c)) (configurations s)"
    by (simp add: assms(1) list.pred_map comp_def)
  finally show ?thesis
    using assms by (simp add: well_versioned_def c)
qed

lemma put_configuration_keys:
  "map c_id (configurations (put_configuration row s)) = map c_id (configurations s)"
  by (simp add: put_configuration_def comp_def cong: map_cong)

text \<open>One more version of an existing configuration, numbered one past its last.\<close>

lemma append_next_version:
  assumes wv: "well_versioned s"
    and ex: "i \<in> set (map c_id (configurations s))"
    and v: "config_id v = i" "version v = Suc (length (versions_of s i))"
    and new: "(config_id v, version v)
                \<notin> set (map (\<lambda>w. (config_id w, version w)) (configuration_versions s))"
  shows "well_versioned (s\<lparr>configuration_versions := configuration_versions s @ [v]\<rparr>)"
proof -
  let ?s' = "s\<lparr>configuration_versions := configuration_versions s @ [v]\<rparr>"
  from wv have d1: "distinct (map c_id (configurations s))"
    and d2: "distinct (map (\<lambda>w. (config_id w, version w)) (configuration_versions s))"
    and fk: "list_all (\<lambda>w. config_id w \<in> set (map c_id (configurations s)))
               (configuration_versions s)"
    and ct: "list_all (\<lambda>c. contiguous_versions s (c_id c)) (configurations s)"
    by (simp_all add: well_versioned_def)
  have own: "versions_of ?s' i = versions_of s i @ [v]"
    using v by (simp add: versions_of_def)
  have other: "\<And>j. j \<noteq> i \<Longrightarrow> versions_of ?s' j = versions_of s j"
    using v by (simp add: versions_of_def)
  have step: "contiguous_versions ?s' j" if "contiguous_versions s j" for j
  proof (cases "j = i")
    case False
    with that other[OF False] show ?thesis
      by (simp add: contiguous_versions_def version_numbers_def)
  next
    case True
    from that True have "set (map version (versions_of s i)) = {1..length (versions_of s i)}"
      by (simp add: contiguous_versions_def version_numbers_def)
    then have "set (map version (versions_of s i @ [v])) = {1..Suc (length (versions_of s i))}"
      using v(2) by (simp add: atLeastAtMostSuc_conv)
    then show ?thesis
      by (simp add: True contiguous_versions_def version_numbers_def own)
  qed
  have c4: "list_all (\<lambda>c. contiguous_versions ?s' (c_id c)) (configurations s)"
    using ct step by (simp add: list_all_iff)
  have c3: "list_all (\<lambda>w. config_id w \<in> set (map c_id (configurations s)))
              (configuration_versions s @ [v])"
    using fk ex v(1) by simp
  have c2: "distinct (map (\<lambda>w. (config_id w, version w)) (configuration_versions s @ [v]))"
    using d2 new by simp
  show ?thesis
    unfolding well_versioned_def using d1 c2 c3 c4 by simp
qed

lemma update_version_well_versioned:
  assumes wv: "well_versioned s"
    and g: "get_Configuration s i = Inr (Some old)"
    and uv: "update_version now caller data i changed (put_configuration row s) = Inr s1"
  shows "well_versioned s1"
proof -
  let ?p = "put_configuration row s"
  from get_Configuration_member[OF g] have old: "old \<in> set (configurations s)" "c_id old = i"
    by simp_all
  have keys: "map c_id (configurations ?p) = map c_id (configurations s)"
    by (rule put_configuration_keys)
  have wp: "well_versioned ?p"
    using well_versioned_keys[OF keys] wv by simp
  show ?thesis
  proof (cases changed)
    case False
    with uv have "s1 = ?p" by (simp add: update_version_def)
    with wp show ?thesis by simp
  next
    case True
    with uv obtain descr d where
      a: "add_version \<lparr>v_id = 0, config_id = i, version = get_next_version_number ?p i,
             v_data_json = d, change_description = descr, v_created_at = now,
             created_by = caller\<rparr> ?p = Inr s1"
      by (auto simp: update_version_def then_do_def lift_def split: sum.splits)
    let ?v = "\<lparr>v_id = 0, config_id = i, version = get_next_version_number ?p i,
             v_data_json = d, change_description = descr, v_created_at = now,
             created_by = caller\<rparr>"
    from add_version_result[OF a] obtain k where
      s1: "s1 = ?p\<lparr>configuration_versions := configuration_versions ?p @ [?v\<lparr>v_id := k\<rparr>]\<rparr>"
      and new: "(config_id ?v, version ?v)
          \<notin> set (map (\<lambda>w. (config_id w, version w)) (configuration_versions ?p))"
      by auto
    have ex: "i \<in> set (map c_id (configurations ?p))"
      using old by (simp add: keys) (metis image_eqI)
    from wv old have "contiguous_versions s i"
      by (auto simp: well_versioned_def list_all_iff)
    then have "get_next_version_number s i = Suc (length (versions_of s i))"
      by (rule next_version_contiguous)
    then have num: "version (?v\<lparr>v_id := k\<rparr>) = Suc (length (versions_of ?p i))"
      by (simp add: versions_of_def)
    have cfg: "config_id (?v\<lparr>v_id := k\<rparr>) = i" by simp
    have new': "(config_id (?v\<lparr>v_id := k\<rparr>), version (?v\<lparr>v_id := k\<rparr>))
          \<notin> set (map (\<lambda>w. (config_id w, version w)) (configuration_versions ?p))"
      using new by simp
    show ?thesis
      unfolding s1 by (rule append_next_version[OF wp ex cfg num new'])
  qed
qed

lemma delete_well_versioned:
  assumes wv: "well_versioned s"
  shows "well_versioned
           (s\<lparr>configurations := filter (\<lambda>c. c_id c \<noteq> i) (configurations s),
              configuration_versions := filter (\<lambda>v. config_id v \<noteq> i) (configuration_versions s)\<rparr>)"
proof -
  let ?s' = "s\<lparr>configurations := filter (\<lambda>c. c_id c \<noteq> i) (configurations s),
              configuration_versions := filter (\<lambda>v. config_id v \<noteq> i) (configuration_versions s)\<rparr>"
  from wv have d1: "distinct (map c_id (configurations s))"
    and d2: "distinct (map (\<lambda>w. (config_id w, version w)) (configuration_versions s))"
    and fk: "list_all (\<lambda>w. config_id w \<in> set (map c_id (configurations s)))
               (configuration_versions s)"
    and ct: "list_all (\<lambda>c. contiguous_versions s (c_id c)) (configurations s)"
    by (simp_all add: well_versioned_def)
  have keep: "\<And>j. j \<noteq> i \<Longrightarrow> versions_of ?s' j = versions_of s j"
    by (auto simp: versions_of_def intro: filter_cong)
  have c1: "distinct (map c_id (configurations ?s'))" using d1 by (simp add: distinct_map_filter)
  have c2: "distinct (map (\<lambda>w. (config_id w, version w)) (configuration_versions ?s'))"
    using d2 by (simp add: distinct_map_filter)
  have c3: "list_all (\<lambda>w. config_id w \<in> set (map c_id (configurations ?s')))
              (configuration_versions ?s')"
    using fk by (auto simp: list_all_iff)
  have c4: "list_all (\<lambda>c. contiguous_versions ?s' (c_id c)) (configurations ?s')"
    using ct keep by (auto simp: list_all_iff contiguous_versions_def version_numbers_def)
  show ?thesis unfolding well_versioned_def using c1 c2 c3 c4 by blast
qed

text \<open>The two handlers that insert a configuration.\<close>

lemma create_checked_result:
  assumes "create_checked now caller data s = Inr (config, d)"
  shows "c_id config = next_id (map c_id (configurations s)) \<and> data_json config = d"
  using assms
  unfolding create_checked_def then_do_def lift_def Let_def set_data_def
  by (auto split: sum.splits if_splits json.splits dest!: set_tags_list_result)

lemma create_checked_abort:
  assumes "create_checked now caller data s = Inl a"
  shows "\<exists>code msg errs. answer a = Failure code msg errs"
proof (cases a)
  case (Raised e)
  then show ?thesis using answer_raised by simp
next
  case (Returned r)
  with assms have "\<exists>code msg errs. r = Failure code msg errs"
    unfolding create_checked_def then_do_def lift_def Let_def validation_error_response_def
    by (auto split: sum.splits if_splits json.splits)
  with Returned show ?thesis by auto
qed

lemma error_handler_failure: "\<exists>code msg errs. error_handler e = Failure code msg errs"
  by (cases e) auto

lemma create_success:
  assumes "create_configuration now info caller data s = (Success code msg body, s')"
  shows "\<exists>config d s1.
      create_checked now caller data s = Inr (config, d)
    \<and> add_version
         \<lparr>v_id = 0, config_id = c_id config, version = 1, v_data_json = d,
          change_description = JStr ''Initial version'', v_created_at = now,
          created_by = caller\<rparr>
         (s\<lparr>configurations := configurations s @ [config]\<rparr>) = Inr s1
    \<and> configurations s' = configurations s1
    \<and> configuration_versions s' = configuration_versions s1
    \<and> body = ConfigData config \<and> code = 201"
proof -
  have t: "truthy data"
    using assms by (auto simp: create_configuration_def split: if_splits)
  show ?thesis
  proof (cases "create_checked now caller data s")
    case (Inl a)
    then obtain c m es where "answer a = Failure c m es" using create_checked_abort by blast
    with Inl assms t show ?thesis by (simp add: create_configuration_def)
  next
    case (Inr p)
    obtain config d where p: "p = (config, d)" by (cases p)
    let ?v = "\<lparr>v_id = 0, config_id = c_id config, version = 1, v_data_json = d,
          change_description = JStr ''Initial version'', v_created_at = now,
          created_by = caller\<rparr>"
    show ?thesis
    proof (cases "add_version ?v (s\<lparr>configurations := configurations s @ [config]\<rparr>)")
      case (Inl e)
      obtain c m es where "error_handler e = Failure c m es"
        using error_handler_failure by blast
      with Inl Inr p assms t show ?thesis by (simp add: create_configuration_def)
    next
      case (Inr s1)
      with \<open>create_checked now caller data s = Inr p\<close> p assms t show ?thesis
        by (auto simp: create_configuration_def)
    qed
  qed
qed

lemma create_from_template_success:
  assumes "create_from_template now info caller i s = (Success code msg body, s')"
  shows "\<exists>template config s1.
      get_Configuration s i = Inr (Some template) \<and> is_template template
    \<and> c_id config = next_id (map c_id (configurations s))
    \<and> data_json config = data_json template
    \<and> user_id config = caller
    \<and> add_version
         \<lparr>v_id = 0, config_id = c_id config, version = 1,
          v_data_json = get_data template,
          change_description =
            JStr (''Created from template '' @ [CHR 0x22] @ name template @ [CHR 0x22]),
          v_created_at = now, created_by = caller\<rparr>
         (s\<lparr>configurations := configurations s @ [config]\<rparr>) = Inr s1
    \<and> configurations s' = configurations s1
    \<and> configuration_versions s' = configuration_versions s1
    \<and> body = ConfigData config \<and> code = 201"
proof -
  obtain template where Some: "get_Configuration s i = Inr (Some template)"
  proof (cases "get_Configuration s i")
    case (Inl e)
    obtain c m es where "error_handler e = Failure c m es"
      using error_handler_failure by blast
    with Inl assms show ?thesis by (simp add: create_from_template_def)
  next
    case (Inr found)
    with assms that show ?thesis
      by (cases found) (simp_all add: create_from_template_def not_found_response_def)
  qed
  with assms have tpl: "is_template template"
    by (auto simp: create_from_template_def split: if_splits)
  from Some tpl assms have own: "sqlite_int (int caller)"
    by (auto simp: create_from_template_def split: if_splits)
  let ?c = "set_data (get_data template)
             \<lparr>c_id = next_id (map c_id (configurations s)), user_id = caller,
              config_type = config_type template,
              name = name template @ '' - New'',
              description = ''Created from template: '' @ name template,
              data_json = JNull,
              tags = (if truthy (tags template) then tags template else JNull),
              is_template = False, created_at = now, updated_at = now\<rparr>"
  let ?v = "\<lparr>v_id = 0, config_id = c_id ?c, version = 1,
          v_data_json = get_data template,
          change_description =
            JStr (''Created from template '' @ [CHR 0x22] @ name template @ [CHR 0x22]),
          v_created_at = now, created_by = caller\<rparr>"
  have f: "c_id ?c = next_id (map c_id (configurations s))"
     "data_json ?c = data_json template" "user_id ?c = caller"
    by (simp_all add: set_data_def get_data_def)
  show ?thesis
  proof (cases "add_version ?v (s\<lparr>configurations := configurations s @ [?c]\<rparr>)")
    case (Inl e)
    obtain c m es where "error_handler e = Failure c m es"
      using error_handler_failure by blast
    with Inl Some tpl own assms show ?thesis
      by (simp add: create_from_template_def Let_def)
  next
    case (Inr s1)
    with Some tpl own assms have "configurations s' = configurations s1
        \<and> configuration_versions s' = configuration_versions s1
        \<and> body = ConfigData ?c \<and> code = 201"
      by (auto simp: create_from_template_def Let_def)
    with Some tpl f Inr show ?thesis by blast
  qed
qed

lemma create_well_versioned:
  assumes wv: "well_versioned s"
  shows "well_versioned (snd (create_configuration now info caller data s))"
proof (cases "create_configuration now info caller data s")
  case (Pair r s')
  show ?thesis
  proof (cases r)
    case (Failure code msg errs)
    with Pair have "s' = s"
      by (auto simp: create_configuration_def split: if_splits sum.splits prod.splits)
    with Pair wv show ?thesis by simp
  next
    case (Success code msg body)
    from create_success[OF Pair[unfolded Success]] obtain config d s1 where
      c: "create_checked now caller data s = Inr (config, d)" and
      a: "add_version
           \<lparr>v_id = 0, config_id = c_id config, version = 1, v_data_json = d,
            change_description = JStr ''Initial version'', v_created_at = now,
            created_by = caller\<rparr>
           (s\<lparr>configurations := configurations s @ [config]\<rparr>) = Inr s1" and
      t: "configurations s' = configurations s1"
         "configuration_versions s' = configuration_versions s1"
      by blast
    have fresh: "c_id config = next_id (map c_id (configurations s))"
      using create_checked_result[OF c] by simp
    have "well_versioned s1"
      by (rule insert_with_first_version(1)[OF wv fresh _ _ a]) simp_all
    then show ?thesis using well_versioned_tables[OF t] Pair by simp
  qed
qed

lemma create_from_template_well_versioned:
  assumes wv: "well_versioned s"
  shows "well_versioned (snd (create_from_template now info caller i s))"
proof (cases "create_from_template now info caller i s")
  case (Pair r s')
  show ?thesis
  proof (cases r)
    case (Failure code msg errs)
    with Pair have "s' = s"
      by (auto simp: create_from_template_def Let_def
          split: if_splits option.splits sum.splits)
    with Pair wv show ?thesis by simp
  next
    case (Success code msg body)
    from create_from_template_success[OF Pair[unfolded Success]] obtain template config s1 where
      fresh: "c_id config = next_id (map c_id (configurations s))" and
      a: "add_version
           \<lparr>v_id = 0, config_id = c_id config, version = 1,
            v_data_json = get_data template,
            change_description =
              JStr (''Created from template '' @ [CHR 0x22] @ name template @ [CHR 0x22]),
            v_created_at = now, created_by = caller\<rparr>
           (s\<lparr>configurations := configurations s @ [config]\<rparr>) = Inr s1" and
      t: "configurations s' = configurations s1"
         "configuration_versions s' = configuration_versions s1"
      by blast
    have "well_versioned s1"
      by (rule insert_with_first_version(1)[OF wv fresh _ _ a]) simp_all
    then show ?thesis using well_versioned_tables[OF t] Pair by simp
  qed
qed

lemma update_success_found:
  assumes "update_configuration now info caller data i s = (Success code msg body, s')"
  shows "\<exists>config. get_Configuration s i = Inr (Some config) \<and> user_id config = caller"
proof (cases "get_Configuration s i")
  case (Inl e)
  obtain c m es where "error_handler e = Failure c m es" using error_handler_failure by blast
  with Inl assms show ?thesis by (simp add: update_configuration_def split: if_splits)
next
  case (Inr found)
  with assms show ?thesis
    by (cases found)
       (auto simp: update_configuration_def not_found_response_def forbidden_response_def
          split: if_splits)
qed

lemma update_well_versioned:
  assumes wv: "well_versioned s"
  shows "well_versioned (snd (update_configuration now info caller data i s))"
proof (cases "update_configuration now info caller data i s")
  case (Pair r s')
  show ?thesis
  proof (cases r)
    case (Failure code msg errs)
    with Pair have "s' = s" using update_failure_keeps_store by blast
    with Pair wv show ?thesis by simp
  next
    case (Success code msg body)
    from update_success_found[OF Pair[unfolded Success]] obtain config where
      g: "get_Configuration s i = Inr (Some config)" and o: "user_id config = caller"
      by blast
    from update_success[OF g o Pair[unfolded Success]] obtain config' changed row s1 where
      v: "update_version now caller data i changed (put_configuration row s) = Inr s1" and
      l: "s' = AuditLog_log now caller ''update'' ''configuration'' (Some i)
              (JObj [(''name'', JStr (name row)), (''data_changed'', JBool changed)]) info s1"
      by blast
    have "well_versioned s1" by (rule update_version_well_versioned[OF wv g v])
    moreover have "well_versioned s' = well_versioned s1"
      by (rule well_versioned_tables) (simp_all add: l)
    ultimately show ?thesis using Pair by simp
  qed
qed

lemma delete_configuration_well_versioned:
  assumes wv: "well_versioned s"
  shows "well_versioned (snd (delete_configuration now info caller i s))"
proof -
  let ?d = "s\<lparr>configurations := filter (\<lambda>c. c_id c \<noteq> i) (configurations s),
              configuration_versions := filter (\<lambda>v. config_id v \<noteq> i) (configuration_versions s)\<rparr>"
  have "well_versioned (AuditLog_log now caller act rt rid dets info ?d)" for act rt rid dets
    using delete_well_versioned[OF wv, of i]
          well_versioned_tables[of "AuditLog_log now caller act rt rid dets info ?d" ?d]
    by simp
  then show ?thesis
    using wv by (auto simp: delete_configuration_def split: option.splits sum.splits)
qed

lemma handle_well_versioned:
  "well_versioned s \<Longrightarrow> well_versioned (snd (handle r s))"
proof (cases r)
  case (CreateConfiguration now info caller data)
  assume "well_versioned s"
  then show ?thesis using CreateConfiguration create_well_versioned by simp
next
  case (GetConfiguration caller i)
  assume "well_versioned s"
  then show ?thesis using GetConfiguration
    by (simp add: get_configuration_def split: option.splits sum.splits)
next
  case (UpdateConfiguration now info caller data i)
  assume "well_versioned s"
  then show ?thesis using UpdateConfiguration update_well_versioned by simp
next
  case (DeleteConfiguration now info caller i)
  assume "well_versioned s"
  then show ?thesis using DeleteConfiguration delete_configuration_well_versioned by simp
next
  case (GetConfigurationVersions caller i)
  assume "well_versioned s"
  then show ?thesis using GetConfigurationVersions
    by (simp add: get_configuration_versions_def split: option.splits sum.splits)
next
  case (GetConfigurationVersion caller i n)
  assume "well_versioned s"
  then show ?thesis using GetConfigurationVersion
    by (simp add: get_configuration_version_def split: option.splits sum.splits)
next
  case (ListTemplates caller)
  assume "well_versioned s"
  then show ?thesis using ListTemplates by (simp add: list_templates_def)
next
  case (CreateFromTemplate now info caller i)
  assume "well_versioned s"
  then show ?thesis using CreateFromTemplate create_from_template_well_versioned by simp
qed

lemma fold_handle_well_versioned:
  "well_versioned s \<Longrightarrow> well_versioned (fold (\<lambda>r s. snd (handle r s)) rs s)"
  by (induction rs arbitrary: s) (simp_all add: handle_well_versioned)

lemma run_well_versioned: "well_versioned (run rs)"
  unfolding run_def by (rule fold_handle_well_versioned[OF well_versioned_empty])

section \<open>The version history of every configuration\<close>

lemma versions_of_tables:
  "configuration_versions s' = configuration_versions s \<Longrightarrow> versions_of s' i = versions_of s i"
  by (simp add: versions_of_def)

lemma create_first_version:
  assumes wv: "well_versioned s"
    and ok: "create_configuration now info caller data s = (Success code msg body, s')"
  shows "\<exists>config v. body = ConfigData config \<and> config \<in> set (configurations s')
           \<and> versions_of s' (c_id config) = [v] \<and> version v = 1
           \<and> change_description v = JStr ''Initial version''
           \<and> v_data_json v = data_json config"
proof -
  from create_success[OF ok] obtain config d s1 where
    c: "create_checked now caller data s = Inr (config, d)" and
    a: "add_version
         \<lparr>v_id = 0, config_id = c_id config, version = 1, v_data_json = d,
          change_description = JStr ''Initial version'', v_created_at = now,
          created_by = caller\<rparr>
         (s\<lparr>configurations := configurations s @ [config]\<rparr>) = Inr s1" and
    t: "configurations s' = configurations s1"
       "configuration_versions s' = configuration_versions s1" and
    b: "body = ConfigData config"
    by blast
  from create_checked_result[OF c] have
    fresh: "c_id config = next_id (map c_id (configurations s))" and d: "data_json config = d"
    by simp_all
  let ?v = "\<lparr>v_id = 0, config_id = c_id config, version = 1, v_data_json = d,
          change_description = JStr ''Initial version'', v_created_at = now,
          created_by = caller\<rparr>"
  have v1: "config_id ?v = c_id config" "version ?v = 1" by simp_all
  from insert_with_first_version(2)[OF wv fresh v1 a] obtain k where
    "versions_of s1 (c_id config) = [?v\<lparr>v_id := k\<rparr>]" by blast
  then have own: "versions_of s' (c_id config) = [?v\<lparr>v_id := k\<rparr>]"
    using versions_of_tables[OF t(2)] by simp
  have "config \<in> set (configurations s')"
    using insert_with_first_version(3)[OF wv fresh v1 a] t(1) by simp
  with own b d show ?thesis by simp
qed

lemma template_first_version:
  assumes wv: "well_versioned s"
    and ok: "create_from_template now info caller i s = (Success code msg body, s')"
  shows "\<exists>template config v. get_Configuration s i = Inr (Some template)
           \<and> body = ConfigData config \<and> config \<in> set (configurations s')
           \<and> versions_of s' (c_id config) = [v] \<and> version v = 1
           \<and> change_description v
               = JStr (''Created from template '' @ [CHR 0x22] @ name template @ [CHR 0x22])
           \<and> v_data_json v = data_json config"
proof -
  from create_from_template_success[OF ok] obtain template config s1 where
    g: "get_Configuration s i = Inr (Some template)" and
    fresh: "c_id config = next_id (map c_id (configurations s))" and
    d: "data_json config = data_json template" and
    a: "add_version
         \<lparr>v_id = 0, config_id = c_id config, version = 1,
          v_data_json = get_data template,
          change_description =
            JStr (''Created from template '' @ [CHR 0x22] @ name template @ [CHR 0x22]),
          v_created_at = now, created_by = caller\<rparr>
         (s\<lparr>configurations := configurations s @ [config]\<rparr>) = Inr s1" and
    t: "configurations s' = configurations s1"
       "configuration_versions s' = configuration_versions s1" and
    b: "body = ConfigData config"
    by blast
  let ?v = "\<lparr>v_id = 0, config_id = c_id config, version = 1,
          v_data_json = get_data template,
          change_description =
            JStr (''Created from template '' @ [CHR 0x22] @ name template @ [CHR 0x22]),
          v_created_at = now, created_by = caller\<rparr>"
  have v1: "config_id ?v = c_id config" "version ?v = 1" by simp_all
  from insert_with_first_version(2)[OF wv fresh v1 a] obtain k where
    "versions_of s1 (c_id config) = [?v\<lparr>v_id := k\<rparr>]" by blast
  then have own: "versions_of s' (c_id config) = [?v\<lparr>v_id := k\<rparr>]"
    using versions_of_tables[OF t(2)] by simp
  have "config \<in> set (configurations s')"
    using insert_with_first_version(3)[OF wv fresh v1 a] t(1) by simp
  with own b d g show ?thesis by (simp add: get_data_def)
qed

lemma update_next_version:
  assumes wv: "well_versioned s"
    and ok: "update_configuration now info caller data i s = (Success code msg body, s')"
    and dt: "py_in ''data'' data = Inr True"
  shows "\<exists>v. configuration_versions s' = configuration_versions s @ [v]
           \<and> config_id v = i
           \<and> version v = get_next_version_number s i
           \<and> version v = Max (set (version_numbers s i)) + 1
           \<and> version v = Suc (length (versions_of s i))"
proof -
  from update_success_found[OF ok] obtain config where
    g: "get_Configuration s i = Inr (Some config)" and o: "user_id config = caller"
    by blast
  from update_success[OF g o ok] obtain config' changed row s1 where
    f: "update_fields data config = Inr (config', changed)" and
    v: "update_version now caller data i changed (put_configuration row s) = Inr s1" and
    l: "s' = AuditLog_log now caller ''update'' ''configuration'' (Some i)
            (JObj [(''name'', JStr (name row)), (''data_changed'', JBool changed)]) info s1"
    by blast
  from update_fields_result[OF f] dt have ch: "changed" by auto
  from update_version_result[OF v] ch obtain w where
    w: "configuration_versions s1 = configuration_versions s @ [w]"
       "config_id w = i" "version w = get_next_version_number s i"
    by auto
  from get_Configuration_member[OF g] wv have ct: "contiguous_versions s i"
    by (auto simp: well_versioned_def list_all_iff)
  then have ne: "versions_of s i \<noteq> []" by (simp add: contiguous_versions_def)
  have "configuration_versions s' = configuration_versions s @ [w]" using w(1) by (simp add: l)
  then show ?thesis
    using w(2,3) next_version_contiguous[OF ct] next_version_max[OF ne] by auto
qed

text \<open>
  C2, as the code has it. Whatever requests have been handled since the empty store,
  the store is well versioned: no two version rows share \<open>(config_id, version)\<close> and
  the version numbers of every configuration are exactly 1 up to the number of its
  versions. A configuration made by the create operation enters the store together
  with its single version, numbered 1, with description "Initial version"; one made
  from a template likewise, with the description naming the template. A data-changing
  update appends the version whose number is the largest number of that configuration
  plus one; \<open>get_next_version_number\<close> is 1 when the configuration has no version.
\<close>

theorem version_history:
  "well_versioned (run rs)
   \<and> (create_configuration now_c info_c caller_c data_c (run rs)
          = (Success code_c msg_c body_c, s_c) \<longrightarrow>
        (\<exists>config v. body_c = ConfigData config \<and> config \<in> set (configurations s_c)
           \<and> versions_of s_c (c_id config) = [v] \<and> version v = 1
           \<and> change_description v = JStr ''Initial version''
           \<and> v_data_json v = data_json config))
   \<and> (create_from_template now_t info_t caller_t i_t (run rs)
          = (Success code_t msg_t body_t, s_t) \<longrightarrow>
        (\<exists>template config v. get_Configuration (run rs) i_t = Inr (Some template)
           \<and> body_t = ConfigData config \<and> config \<in> set (configurations s_t)
           \<and> versions_of s_t (c_id config) = [v] \<and> version v = 1
           \<and> change_description v
               = JStr (''Created from template '' @ [CHR 0x22] @ name template @ [CHR 0x22])
           \<and> v_data_json v = data_json config))
   \<and> (update_configuration now_u info_u caller_u data_u i_u (run rs)
          = (Success code_u msg_u body_u, s_u)
        \<and> py_in ''data'' data_u = Inr True \<longrightarrow>
        (\<exists>v. configuration_versions s_u = configuration_versions (run rs) @ [v]
           \<and> config_id v = i_u
           \<and> version v = get_next_version_number (run rs) i_u
           \<and> version v = Max (set (version_numbers (run rs) i_u)) + 1
           \<and> version v = Suc (length (versions_of (run rs) i_u))))
   \<and> (versions_of s j = [] \<longrightarrow> get_next_version_number s j = 1)
   \<and> (versions_of s j \<noteq> [] \<longrightarrow>
        get_next_version_number s j = Max (set (version_numbers s j)) + 1)"
  using run_well_versioned[of rs]
        create_first_version[OF run_well_versioned, of now_c info_c caller_c data_c rs]
        template_first_version[OF run_well_versioned, of now_t info_t caller_t i_t rs]
        update_next_version[OF run_well_versioned, of now_u info_u caller_u data_u i_u rs]
        next_version_none[of s j] next_version_max[of s j]
  by blast

theorem version_history_witness:
  "well_versioned (run [example_create])
   \<and> (\<exists>v. versions_of (snd (create_configuration 1 example_info 1 example_body (run []))) 1 = [v]
          \<and> version v = 1 \<and> change_description v = JStr ''Initial version'')
   \<and> (\<exists>v. versions_of (snd (create_from_template 2 example_info 2 1 (run [example_create]))) 2
            = [v]
          \<and> version v = 1
          \<and> change_description v
              = JStr (''Created from template '' @ [CHR 0x22] @ ''T1'' @ [CHR 0x22]))
   \<and> (\<exists>v. configuration_versions
              (snd (update_configuration 3 example_info 1 example_patch 1 (run [example_create])))
            = configuration_versions (run [example_create]) @ [v]
          \<and> config_id v = 1 \<and> version v = 2)
   \<and> get_next_version_number empty_store 1 = 1
   \<and> get_next_version_number example_store 1 = Max (set (version_numbers example_store 1)) + 1"
proof -
  let ?s = "run [example_create]"
  let ?c = "create_configuration 1 example_info 1 example_body (run [])"
  let ?t = "create_from_template 2 example_info 2 1 ?s"
  let ?u = "update_configuration 3 example_info 1 example_patch 1 ?s"
  let ?cfg = "\<lparr>c_id = 1, user_id = 1, config_type = ''ipsec'', name = ''T1'',
       description = [], data_json = JObj [(''k'', JStr ''v'')],
       tags = JNull, is_template = True, created_at = 1, updated_at = 1\<rparr>"
  let ?new = "\<lparr>c_id = 2, user_id = 2, config_type = ''ipsec'', name = ''T1 - New'',
       description = ''Created from template: T1'',
       data_json = JObj [(''k'', JStr ''v'')], tags = JNull,
       is_template = False, created_at = 2, updated_at = 2\<rparr>"
  let ?upd = "?cfg\<lparr>data_json := JObj [(''k'', JStr ''v2'')], updated_at := 3\<rparr>"
  have "fst ?c = Success 201 (Some ''Configuration created successfully'') (ConfigData ?cfg)"
    by code_simp
  then have c: "?c = (Success 201 (Some ''Configuration created successfully'')
                        (ConfigData ?cfg), snd ?c)"
    by (metis prod.collapse)
  have "fst ?t = Success 201 (Some ''Configuration created from template'') (ConfigData ?new)"
    by code_simp
  then have t: "?t = (Success 201 (Some ''Configuration created from template'')
                        (ConfigData ?new), snd ?t)"
    by (metis prod.collapse)
  have "fst ?u = Success 200 (Some ''Configuration updated successfully'') (ConfigData ?upd)"
    by code_simp
  then have u: "?u = (Success 200 (Some ''Configuration updated successfully'')
                        (ConfigData ?upd), snd ?u)"
    by (metis prod.collapse)
  have g: "get_Configuration ?s 1 = Inr (Some ?cfg)" by code_simp
  have p: "py_in ''data'' example_patch = Inr True" by (simp add: example_patch_def)
  have n: "get_next_version_number ?s 1 = 2" by code_simp
  have e: "versions_of empty_store 1 = []" by (simp add: versions_of_def empty_store_def)
  have x: "versions_of example_store 1 \<noteq> []"
    by (simp add: versions_of_def example_store_def example_version_def)
  note h1 = version_history[where rs = "[]" and now_c = 1 and info_c = example_info
      and caller_c = 1 and data_c = example_body and s_c = "snd ?c"
      and code_c = 201 and msg_c = "Some ''Configuration created successfully''"
      and body_c = "ConfigData ?cfg" and s = empty_store and j = 1]
  note h2 = version_history[where rs = "[example_create]"
      and now_t = 2 and info_t = example_info and caller_t = 2 and i_t = 1 and s_t = "snd ?t"
      and code_t = 201 and msg_t = "Some ''Configuration created from template''"
      and body_t = "ConfigData ?new"
      and now_u = 3 and info_u = example_info and caller_u = 1 and data_u = example_patch
      and i_u = 1 and s_u = "snd ?u"
      and code_u = 200 and msg_u = "Some ''Configuration updated successfully''"
      and body_u = "ConfigData ?upd"
      and s = example_store and j = 1]
  have a0: "well_versioned ?s" by (rule h2[THEN conjunct1])
  from h1[THEN conjunct2, THEN conjunct1, rule_format, OF c]
  obtain config1 v1 where
    b1: "ConfigData ?cfg = ConfigData config1" and
    v1: "versions_of (snd ?c) (c_id config1) = [v1]" "version v1 = 1"
        "change_description v1 = JStr ''Initial version''"
    by blast
  from b1 have "c_id config1 = 1" by auto
  with v1 have a1: "\<exists>v. versions_of (snd ?c) 1 = [v] \<and> version v = 1
              \<and> change_description v = JStr ''Initial version''"
    by auto
  from h2[THEN conjunct2, THEN conjunct2, THEN conjunct1, rule_format, OF t]
  obtain template config2 v2 where
    g2: "get_Configuration ?s 1 = Inr (Some template)" and
    b2: "ConfigData ?new = ConfigData config2" and
    v2: "versions_of (snd ?t) (c_id config2) = [v2]" "version v2 = 1"
        "change_description v2
           = JStr (''Created from template '' @ [CHR 0x22] @ name template @ [CHR 0x22])"
    by blast
  from b2 have i2: "c_id config2 = 2" by auto
  from g g2 have "template = ?cfg" by simp
  then have "name template = ''T1''" by simp
  with v2 i2 have a2: "\<exists>v. versions_of (snd ?t) 2 = [v] \<and> version v = 1
              \<and> change_description v
                  = JStr (''Created from template '' @ [CHR 0x22] @ ''T1'' @ [CHR 0x22])"
    by auto
  from h2[THEN conjunct2, THEN conjunct2, THEN conjunct2, THEN conjunct1, rule_format,
          OF conjI[OF u p]]
  obtain v3 where
    v3: "configuration_versions (snd ?u) = configuration_versions ?s @ [v3]"
        "config_id v3 = 1" "version v3 = get_next_version_number ?s 1"
    by blast
  with n have a3: "\<exists>v. configuration_versions (snd ?u) = configuration_versions ?s @ [v]
              \<and> config_id v = 1 \<and> version v = 2"
    by auto
  have a4: "get_next_version_number empty_store 1 = 1"
    by (rule h1[THEN conjunct2, THEN conjunct2, THEN conjunct2, THEN conjunct2,
          THEN conjunct1, rule_format, OF e])
  have a5: "get_next_version_number example_store 1
              = Max (set (version_numbers example_store 1)) + 1"
    by (rule h2[THEN conjunct2, THEN conjunct2, THEN conjunct2, THEN conjunct2,
          THEN conjunct2, rule_format, OF x])
  show ?thesis using a0 a1 a2 a3 a4 a5 by blast
qed

text \<open>
  C2 as stated fails for a configuration made from a template: its first version has
  number 1, and its description names the template instead of being "Initial version".
\<close>

theorem template_first_version_counterexample:
  "map c_id (configurations (run [example_create, CreateFromTemplate 2 example_info 2 1]))
     = [1, 2]
   \<and> map (\<lambda>v. (version v, change_description v))
        (versions_of (run [example_create, CreateFromTemplate 2 example_info 2 1]) 2)
     = [(1, JStr (''Created from template '' @ [CHR 0x22] @ ''T1'' @ [CHR 0x22]))]
   \<and> JStr (''Created from template '' @ [CHR 0x22] @ ''T1'' @ [CHR 0x22])
       \<noteq> JStr ''Initial version''"
  by code_simp

end
